theory Spec2Isabelle
  imports Complex_Main "HOL-Library.Log_Nat"
begin

section \<open>Python values and library functions used by \<open>camera.py\<close>\<close>

subsection \<open>Exceptions\<close>

text \<open>
  The exceptions that occur.  \<open>PlatformError\<close> stands for whatever the camera, the
  display or the estimator raises (\<open>cv2.error\<close> and the like), with its message.
  \<open>KeyboardInterrupt\<close> and \<open>SystemExit\<close> derive from \<open>BaseException\<close> only: a
  clause \<open>except Exception\<close> lets them pass.  They are raised where the interpreter
  is inside a call into the platform (a read, a transform, a window, a key poll).
\<close>

datatype exn =
    ZeroDivisionError
  | OverflowError string
  | ValueError string
  | TypeError string
  | AttributeError string
  | PlatformError string
  | KeyboardInterrupt
  | SystemExit

fun is_Exception :: "exn \<Rightarrow> bool" where
  "is_Exception KeyboardInterrupt = False"
| "is_Exception SystemExit = False"
| "is_Exception e = True"

fun exn_str :: "exn \<Rightarrow> string" where
  "exn_str ZeroDivisionError = ''float division by zero''"
| "exn_str (OverflowError m) = m"
| "exn_str (ValueError m) = m"
| "exn_str (TypeError m) = m"
| "exn_str (AttributeError m) = m"
| "exn_str (PlatformError m) = m"
| "exn_str KeyboardInterrupt = []"
| "exn_str SystemExit = []"

subsection \<open>Floats\<close>

text \<open>
  A Python float is an IEEE 754 double: a finite value (a rational; the two zeros are
  one value here, as they compare equal and nothing in this program tells them apart),
  an infinity, or NaN.
\<close>

datatype pyfloat = Finite rat | PosInf | NegInf | NaN

text \<open>The nearest integer, ties to the even one.\<close>

definition round_half_even :: "rat \<Rightarrow> int" where
  "round_half_even x =
     (let f = \<lfloor>x\<rfloor>; d = x - of_int f
      in if d < 1 / 2 then f
         else if 1 / 2 < d then f + 1
         else if even f then f else f + 1)"

text \<open>
  The binary exponent of a positive rational \<open>a\<close>: the \<open>e\<close> with
  \<open>2^e \<le> a < 2^(e+1)\<close>, found from the bit lengths of numerator and denominator.
\<close>

definition ilog2 :: "rat \<Rightarrow> int" where
  "ilog2 a =
     (let k = bitlen (fst (quotient_of a)) - bitlen (snd (quotient_of a))
      in if power_int 2 k \<le> a then k else k - 1)"

text \<open>
  The result of an arithmetic operation is the exact result rounded to the nearest
  double, ties to the even significand: 53 bits of significand, the spacing of the
  subnormal numbers (\<open>2^-1074\<close>) below the normal range, and an infinity when
  the rounded value reaches \<open>2^1024\<close>.
\<close>

definition fl :: "rat \<Rightarrow> pyfloat" where
  "fl x =
     (if x = 0 then Finite 0
      else let a = \<bar>x\<bar>;
               q = max (ilog2 a - 52) (- 1074);
               y = of_int (round_half_even (a / power_int 2 q)) * power_int 2 q
           in if power_int 2 1024 \<le> y then (if 0 < x then PosInf else NegInf)
              else Finite (if 0 < x then y else - y))"

text \<open>\<open>float(n)\<close> for an integer, as the mixed operations below convert it.\<close>

definition float_of_int :: "int \<Rightarrow> exn + pyfloat" where
  "float_of_int n =
     (case fl (of_int n) of
        Finite x \<Rightarrow> Inr (Finite x)
      | _ \<Rightarrow> Inl (OverflowError ''int too large to convert to float''))"

text \<open>\<open>x * y\<close>, \<open>x - y\<close> and \<open>x / y\<close> on floats.\<close>

fun float_mul :: "pyfloat \<Rightarrow> pyfloat \<Rightarrow> pyfloat" where
  "float_mul (Finite a) (Finite b) = fl (a * b)"
| "float_mul NaN y = NaN"
| "float_mul x NaN = NaN"
| "float_mul (Finite a) PosInf = (if a = 0 then NaN else if 0 < a then PosInf else NegInf)"
| "float_mul (Finite a) NegInf = (if a = 0 then NaN else if 0 < a then NegInf else PosInf)"
| "float_mul PosInf (Finite b) = (if b = 0 then NaN else if 0 < b then PosInf else NegInf)"
| "float_mul NegInf (Finite b) = (if b = 0 then NaN else if 0 < b then NegInf else PosInf)"
| "float_mul PosInf PosInf = PosInf"
| "float_mul PosInf NegInf = NegInf"
| "float_mul NegInf PosInf = NegInf"
| "float_mul NegInf NegInf = PosInf"

fun float_sub :: "pyfloat \<Rightarrow> pyfloat \<Rightarrow> pyfloat" where
  "float_sub (Finite a) (Finite b) = fl (a - b)"
| "float_sub NaN y = NaN"
| "float_sub x NaN = NaN"
| "float_sub (Finite a) PosInf = NegInf"
| "float_sub (Finite a) NegInf = PosInf"
| "float_sub PosInf (Finite b) = PosInf"
| "float_sub NegInf (Finite b) = NegInf"
| "float_sub PosInf PosInf = NaN"
| "float_sub PosInf NegInf = PosInf"
| "float_sub NegInf PosInf = NegInf"
| "float_sub NegInf NegInf = NaN"

fun float_truediv :: "pyfloat \<Rightarrow> pyfloat \<Rightarrow> exn + pyfloat" where
  "float_truediv x (Finite b) =
     (if b = 0 then Inl ZeroDivisionError
      else Inr (case x of
                  Finite a \<Rightarrow> fl (a / b)
                | PosInf \<Rightarrow> if 0 < b then PosInf else NegInf
                | NegInf \<Rightarrow> if 0 < b then NegInf else PosInf
                | NaN \<Rightarrow> NaN))"
| "float_truediv (Finite a) PosInf = Inr (Finite 0)"
| "float_truediv (Finite a) NegInf = Inr (Finite 0)"
| "float_truediv x y = Inr NaN"

text \<open>\<open>n * x\<close> and \<open>n / x\<close> for an integer \<open>n\<close> and a float \<open>x\<close>.\<close>

definition int_mul_float :: "int \<Rightarrow> pyfloat \<Rightarrow> exn + pyfloat" where
  "int_mul_float n x = (case float_of_int n of Inl e \<Rightarrow> Inl e | Inr y \<Rightarrow> Inr (float_mul y x))"

definition int_truediv_float :: "int \<Rightarrow> pyfloat \<Rightarrow> exn + pyfloat" where
  "int_truediv_float n x = (case float_of_int n of Inl e \<Rightarrow> Inl e | Inr y \<Rightarrow> float_truediv y x)"

text \<open>Python's \<open>round(x)\<close> with one argument, on a float.\<close>

fun py_round :: "pyfloat \<Rightarrow> exn + int" where
  "py_round (Finite x) = Inr (round_half_even x)"
| "py_round PosInf = Inl (OverflowError ''cannot convert float infinity to integer'')"
| "py_round NegInf = Inl (OverflowError ''cannot convert float infinity to integer'')"
| "py_round NaN = Inl (ValueError ''cannot convert float NaN to integer'')"

text \<open>\<open>round(n * x)\<close> for an integer \<open>n\<close> and a float \<open>x\<close>.\<close>

definition round_mul :: "nat \<Rightarrow> pyfloat \<Rightarrow> exn + int" where
  "round_mul n x = (case int_mul_float (int n) x of Inl e \<Rightarrow> Inl e | Inr y \<Rightarrow> py_round y)"

text \<open>Decimal numerals, as \<open>str\<close> and the f-strings print integers.\<close>

fun str_nat :: "nat \<Rightarrow> string" where
  "str_nat n =
     (if n < 10 then [''0123456789'' ! n]
      else str_nat (n div 10) @ [''0123456789'' ! (n mod 10)])"

declare str_nat.simps [simp del]

definition str_int :: "int \<Rightarrow> string" where
  "str_int i = (if i < 0 then ''-'' @ str_nat (nat (- i)) else str_nat (nat i))"

text \<open>\<open>str.upper\<close> on the ASCII letters (device names are \<open>cpu\<close>, \<open>cuda\<close>, \<open>mps\<close>).\<close>

definition upper_char :: "char \<Rightarrow> char" where
  "upper_char ch =
     (case map_of (zip ''abcdefghijklmnopqrstuvwxyz'' ''ABCDEFGHIJKLMNOPQRSTUVWXYZ'') ch of
        None \<Rightarrow> ch
      | Some u \<Rightarrow> u)"

definition upper :: "string \<Rightarrow> string" where
  "upper s = map upper_char s"

subsection \<open>Wall-clock readings and \<open>strftime\<close>\<close>

record datetime =
  year :: nat
  month :: nat
  day :: nat
  hour :: nat
  minute :: nat
  second :: nat
  microsecond :: nat

definition two_digits :: "nat \<Rightarrow> string" where
  "two_digits n = (if n < 10 then ''0'' @ str_nat n else str_nat n)"

definition month_name :: "nat \<Rightarrow> string" where
  "month_name m =
     [''January'', ''February'', ''March'', ''April'', ''May'', ''June'', ''July'',
      ''August'', ''September'', ''October'', ''November'', ''December''] ! (m - 1)"

text \<open>\<open>strftime("%d %B %Y")\<close>\<close>

definition strftime_date :: "datetime \<Rightarrow> string" where
  "strftime_date d =
     two_digits (day d) @ '' '' @ month_name (month d) @ '' '' @ str_nat (year d)"

text \<open>\<open>strftime("%H:%M:%S")\<close>\<close>

definition strftime_time :: "datetime \<Rightarrow> string" where
  "strftime_time d =
     two_digits (hour d) @ '':'' @ two_digits (minute d) @ '':'' @ two_digits (second d)"

section \<open>Frames, the store of arrays, and the camera object\<close>

text \<open>
  A frame is a three-dimensional array: its shape and its flat pixel data.  Arrays are
  mutable Python objects, so variables hold references into a store; \<open>display_frame =
  frame\<close> makes two names of one array.
\<close>

record image =
  height :: nat
  width :: nat
  channels :: nat
  pixels :: "nat list"

datatype ref = NoneRef | Ref nat

text \<open>
  What a run does to the outside: lines printed, windows shown (title and the image
  shown), the camera released, the windows destroyed.  An event is an effect that took
  place: a call that raises leaves none.  Printing is taken to succeed.
  \<open>CaptureCall\<close> marks an entry into the method \<open>capture\<close>, with the content of
  the array it was given.
\<close>

datatype event =
    Print string
  | Imshow string image
  | CaptureCall "image option"
  | CameraRelease
  | DestroyAllWindows

text \<open>
  The object: the attributes \<open>__init__\<close> sets (\<open>priv_scale\<close> is \<open>self.__scale\<close>), the
  two attributes of the estimator the loop reads, the store and the trace of events.
\<close>

record DepthCamera =
  camera_num :: int
  is_running :: bool
  priv_scale :: pyfloat
  live_render :: bool
  device :: string
  heap :: "nat \<Rightarrow> image option"
  next_addr :: nat
  trace :: "event list"

text \<open>
  The collaborators that are not part of \<open>camera.py\<close>, as parameters.
  \<open>DepthEstimator\<close> is imported from \<open>.base\<close>, which is not among the sources; as
  the spec gives it, \<open>colormap\<close> is a pure transform (\<open>colormap_fn\<close>: it returns a
  new array or raises, and touches nothing else) and \<open>live_render\<close> and \<open>device\<close> are
  attributes the loop only reads, \<open>device\<close> a string.  \<open>putText_fn\<close> is the content
  \<open>cv2.putText\<close> leaves in the array it draws on (text, origin, font face, font scale,
  colour, thickness); \<open>inter_area\<close> is the resampling of \<open>cv2.resize\<close> with
  \<open>INTER_AREA\<close> to a given height and width, which gives the pixel data or fails
  (it has to allocate the result).  \<open>release_fault\<close> and \<open>destroy_fault\<close> say
  whether \<open>camera.release()\<close> and \<open>cv2.destroyAllWindows()\<close> raise, and what.
\<close>

record platform =
  colormap_fn :: "image option \<Rightarrow> exn + image"
  putText_fn :: "image \<Rightarrow> string \<Rightarrow> int \<times> int \<Rightarrow> int \<Rightarrow> pyfloat \<Rightarrow> nat \<times> nat \<times> nat \<Rightarrow> nat
                 \<Rightarrow> exn + image"
  inter_area :: "image \<Rightarrow> nat \<Rightarrow> nat \<Rightarrow> exn + nat list"
  release_fault :: "exn option"
  destroy_fault :: "exn option"

subsection \<open>Computations that may raise\<close>

text \<open>
  A statement takes the object and returns the object it leaves, with a value or the
  exception it raised.
\<close>

type_synonym 'a comp = "DepthCamera \<Rightarrow> (exn + 'a) \<times> DepthCamera"

definition then_do :: "'a comp \<Rightarrow> ('a \<Rightarrow> 'b comp) \<Rightarrow> 'b comp" where
  "then_do m f c = (case m c of (Inl e, c') \<Rightarrow> (Inl e, c') | (Inr x, c') \<Rightarrow> f x c')"

definition lift :: "exn + 'a \<Rightarrow> 'a comp" where
  "lift r c = (r, c)"

definition emit :: "event \<Rightarrow> DepthCamera \<Rightarrow> DepthCamera" where
  "emit e c = c\<lparr>trace := trace c @ [e]\<rparr>"

definition alloc :: "image \<Rightarrow> DepthCamera \<Rightarrow> ref \<times> DepthCamera" where
  "alloc img c =
     (Ref (next_addr c),
      c\<lparr>heap := (heap c)(next_addr c \<mapsto> img), next_addr := Suc (next_addr c)\<rparr>)"

definition deref :: "DepthCamera \<Rightarrow> ref \<Rightarrow> image option" where
  "deref c r = (case r of NoneRef \<Rightarrow> None | Ref a \<Rightarrow> heap c a)"

section \<open>The platform primitives\<close>

text \<open>
  \<open>self.camera.read()\<close>: the outcome comes from the outside (it raises, or returns the
  success flag and a frame, \<open>None\<close> when there is none).  A frame is a new array.
\<close>

definition camera_read :: "exn + (bool \<times> image option) \<Rightarrow> (bool \<times> ref) comp" where
  "camera_read r c =
     (case r of
        Inl e \<Rightarrow> (Inl e, c)
      | Inr (ret, None) \<Rightarrow> (Inr (ret, NoneRef), c)
      | Inr (ret, Some img) \<Rightarrow> (case alloc img c of (a, c') \<Rightarrow> (Inr (ret, a), c')))"

text \<open>\<open>self.estimator.colormap(frame)\<close>: the result is a new array.\<close>

definition est_colormap :: "platform \<Rightarrow> ref \<Rightarrow> ref comp" where
  "est_colormap P frame c =
     (case colormap_fn P (deref c frame) of
        Inl e \<Rightarrow> (Inl e, c)
      | Inr img \<Rightarrow> (case alloc img c of (a, c') \<Rightarrow> (Inr a, c')))"

text \<open>
  \<open>cv2.putText(img, text, org, fontFace, fontScale, color, thickness)\<close> draws into the
  array it is given: the store changes at that address.  Given \<open>None\<close> it raises.
\<close>

definition cv_putText ::
  "platform \<Rightarrow> ref \<Rightarrow> string \<Rightarrow> int \<times> int \<Rightarrow> int \<Rightarrow> pyfloat \<Rightarrow> nat \<times> nat \<times> nat \<Rightarrow> nat \<Rightarrow> unit comp"
where
  "cv_putText P img text org face fscale color thickness c =
     (case img of
        NoneRef \<Rightarrow> (Inl (PlatformError ''putText: img is not a numpy array''), c)
      | Ref a \<Rightarrow>
          (case heap c a of
             None \<Rightarrow> (Inl (PlatformError ''putText: img is not a numpy array''), c)
           | Some old \<Rightarrow>
               (case putText_fn P old text org face fscale color thickness of
                  Inl e \<Rightarrow> (Inl e, c)
                | Inr new \<Rightarrow> (Inr (), c\<lparr>heap := (heap c)(a \<mapsto> new)\<rparr>))))"

text \<open>
  \<open>cv2.resize(src, dsize, interpolation=INTER_AREA)\<close> with \<open>dsize = (width, height)\<close>.
  The two components of \<open>dsize\<close> become C integers: a value beyond \<open>int_max\<close> is
  refused.  The call raises on an empty source and on a size with a component that is not
  positive, and when the resampling fails; otherwise it returns a new array of shape
  \<open>(height, width, channels)\<close>.  The source is left as it is.
\<close>

definition int_max :: int where
  "int_max = 2 ^ 31 - 1"

definition cv_resize :: "platform \<Rightarrow> image \<Rightarrow> int \<times> int \<Rightarrow> ref comp" where
  "cv_resize P src dsize c =
     (if int_max < fst dsize \<or> int_max < snd dsize \<or> fst dsize < - int_max - 1
         \<or> snd dsize < - int_max - 1
      then (Inl (PlatformError ''resize: dsize out of range''), c)
      else if height src = 0 \<or> width src = 0 \<or> fst dsize \<le> 0 \<or> snd dsize \<le> 0
      then (Inl (PlatformError ''resize: assertion failed''), c)
      else (case inter_area P src (nat (snd dsize)) (nat (fst dsize)) of
              Inl e \<Rightarrow> (Inl e, c)
            | Inr px \<Rightarrow>
                (case alloc \<lparr>height = nat (snd dsize), width = nat (fst dsize),
                              channels = channels src, pixels = px\<rparr> c of
                   (a, c') \<Rightarrow> (Inr a, c'))))"

text \<open>
  \<open>self.camera.release()\<close> and \<open>cv2.destroyAllWindows()\<close>: the effect, unless the
  call raises.
\<close>

definition camera_release :: "platform \<Rightarrow> unit comp" where
  "camera_release P c =
     (case release_fault P of
        Some e \<Rightarrow> (Inl e, c)
      | None \<Rightarrow> (Inr (), emit CameraRelease c))"

definition cv_destroyAllWindows :: "platform \<Rightarrow> unit comp" where
  "cv_destroyAllWindows P c =
     (case destroy_fault P of
        Some e \<Rightarrow> (Inl e, c)
      | None \<Rightarrow> (Inr (), emit DestroyAllWindows c))"

text \<open>
  \<open>cv2.imshow(title, img)\<close>: the window shows the content the array has now.  The
  display may refuse (\<open>fault\<close>, from the outside).
\<close>

definition cv_imshow :: "exn option \<Rightarrow> string \<Rightarrow> ref \<Rightarrow> unit comp" where
  "cv_imshow fault title img c =
     (case fault of
        Some e \<Rightarrow> (Inl e, c)
      | None \<Rightarrow>
          (case deref c img of
             None \<Rightarrow> (Inl (PlatformError ''imshow: mat is not a numpy array''), c)
           | Some content \<Rightarrow> (Inr (), emit (Imshow title content) c)))"

section \<open>The class \<open>DepthCamera\<close>\<close>

subsection \<open>The scale properties\<close>

text \<open>The function under \<open>@property\<close>: \<open>return self.__scale\<close>.\<close>

definition scale :: "DepthCamera \<Rightarrow> pyfloat" where
  "scale self = priv_scale self"

text \<open>The function under \<open>@scale.setter\<close>: \<open>self.__scale = new_scale_factor\<close>.\<close>

definition set_scale :: "DepthCamera \<Rightarrow> pyfloat \<Rightarrow> DepthCamera" where
  "set_scale self new_scale_factor = self\<lparr>priv_scale := new_scale_factor\<rparr>"

text \<open>
  Python's \<open>property\<close> objects.  \<open>property(f)\<close> has the getter \<open>f\<close> and no setter;
  \<open>p.setter(g)\<close> is a copy of \<open>p\<close> with the setter \<open>g\<close>.  A decorated \<open>def name\<close>
  binds \<open>name\<close>, the name of the function, to what the decorator returns; an
  earlier binding of another name stays as it was.
\<close>

datatype pyval = PyFloat pyfloat | PyNone

datatype pyproperty =
  Property "(DepthCamera \<Rightarrow> pyfloat) option" "(DepthCamera \<Rightarrow> pyfloat \<Rightarrow> DepthCamera) option"

definition property :: "(DepthCamera \<Rightarrow> pyfloat) \<Rightarrow> pyproperty" where
  "property fget = Property (Some fget) None"

definition setter :: "pyproperty \<Rightarrow> (DepthCamera \<Rightarrow> pyfloat \<Rightarrow> DepthCamera) \<Rightarrow> pyproperty" where
  "setter p fset = (case p of Property fget _ \<Rightarrow> Property fget (Some fset))"

text \<open>The properties the class body binds: lines 44 to 59, in order.\<close>

definition class_properties :: "(string \<times> pyproperty) list" where
  "class_properties =
     (let ns1 = [(''scale'', property scale)]
      in case map_of ns1 ''scale'' of
           None \<Rightarrow> ns1
         | Some p \<Rightarrow> (''set_scale'', setter p set_scale) # ns1)"

text \<open>
  Attribute access through a property: \<open>obj.name\<close>, \<open>obj.name = v\<close> and
  \<open>obj.name(v)\<close>.  The result is \<open>None\<close> for a name the class body binds to no
  property (ordinary attributes are outside this part of the model).
\<close>

definition property_get :: "pyproperty \<Rightarrow> DepthCamera \<Rightarrow> exn + pyval" where
  "property_get p self =
     (case p of
        Property None _ \<Rightarrow> Inl (AttributeError ''unreadable attribute'')
      | Property (Some fget) _ \<Rightarrow> Inr (PyFloat (fget self)))"

definition property_set :: "pyproperty \<Rightarrow> DepthCamera \<Rightarrow> pyfloat \<Rightarrow> exn + DepthCamera" where
  "property_set p self v =
     (case p of
        Property _ None \<Rightarrow> Inl (AttributeError ''property has no setter'')
      | Property _ (Some fset) \<Rightarrow> Inr (fset self v))"

definition py_call :: "pyval \<Rightarrow> pyfloat list \<Rightarrow> exn + pyval" where
  "py_call f args =
     (case f of
        PyFloat _ \<Rightarrow> Inl (TypeError ''float object is not callable'')
      | PyNone \<Rightarrow> Inl (TypeError ''NoneType object is not callable''))"

definition getattr :: "DepthCamera \<Rightarrow> string \<Rightarrow> (exn + pyval) option" where
  "getattr self name = map_option (\<lambda>p. property_get p self) (map_of class_properties name)"

definition setattr :: "DepthCamera \<Rightarrow> string \<Rightarrow> pyfloat \<Rightarrow> (exn + DepthCamera) option" where
  "setattr self name v = map_option (\<lambda>p. property_set p self v) (map_of class_properties name)"

definition call_attr :: "DepthCamera \<Rightarrow> string \<Rightarrow> pyfloat list \<Rightarrow> (exn + pyval) option" where
  "call_attr self name args =
     map_option (\<lambda>r. case r of Inl e \<Rightarrow> Inl e | Inr f \<Rightarrow> py_call f args) (getattr self name)"

subsection \<open>\<open>__resize\<close>\<close>

text \<open>
  Lines 73 to 75.  The two products are float products (the integer dimension is
  converted, the product rounded to a double) and \<open>round\<close> is applied to the double;
  the tuple is built from left to right.
\<close>

definition resize :: "platform \<Rightarrow> ref \<Rightarrow> pyfloat \<Rightarrow> ref comp" where
  "resize P img factor c =
     (case deref c img of
        None \<Rightarrow> (Inl (AttributeError ''NoneType object has no attribute shape''), c)
      | Some src \<Rightarrow>
          then_do (lift (round_mul (width src) factor)) (\<lambda>new_width.
          then_do (lift (round_mul (height src) factor)) (\<lambda>new_height.
          cv_resize P src (new_width, new_height))) c)"

subsection \<open>\<open>capture\<close>\<close>

text \<open>
  What a call of \<open>capture\<close> takes from the outside: the two readings of
  \<open>datetime.now()\<close> and whether the display refuses the window.
\<close>

record capture_env =
  now_date :: datetime
  now_time :: datetime
  capture_show_fault :: "exn option"

definition capture :: "platform \<Rightarrow> capture_env \<Rightarrow> ref \<Rightarrow> unit comp" where
  "capture P env frame =
     then_do (\<lambda>c. (Inr (), emit (CaptureCall (deref c frame)) c)) (\<lambda>_.
     then_do (est_colormap P frame) (\<lambda>colored_map.
     then_do (lift (Inr (strftime_date (now_date env)))) (\<lambda>date_today.
     then_do (lift (Inr (strftime_time (now_time env)))) (\<lambda>timestamp.
     then_do (\<lambda>c. (Inr (), emit (Print (''['' @ date_today @ '' | '' @ timestamp @
                                          ''] Frame captured!'')) c)) (\<lambda>_.
     cv_imshow (capture_show_fault env) (''Depth Scan - '' @ timestamp) colored_map)))))"

subsection \<open>\<open>run\<close>\<close>

text \<open>
  What one pass through the loop takes from the outside: the two readings of
  \<open>perf_counter()\<close>, the outcome of \<open>camera.read()\<close>, whether the display refuses the
  window, the outcome of \<open>cv2.waitKey(10)\<close>, and what a call of \<open>capture\<close> would take.
\<close>

record iter_input =
  t_start :: pyfloat
  read_result :: "exn + (bool \<times> image option)"
  t_end :: pyfloat
  show_fault :: "exn option"
  key_result :: "exn + int"
  cap_env :: capture_env

datatype flow = Continue | Break

text \<open>
  The body of the \<open>while\<close> loop, in its two blocks.  Lines 101 to 108 read a frame
  and show it; the block leaves the variable \<open>frame\<close> to the next one.
  \<open>FONT_HERSHEY_SIMPLEX\<close> is 0, and the literal \<open>0.7\<close> is the double nearest to 7/10.
\<close>

definition show_frame :: "platform \<Rightarrow> iter_input \<Rightarrow> ref comp" where
  "show_frame P inp =
     then_do (lift (Inr (t_start inp))) (\<lambda>frame_start_time.
     then_do (camera_read (read_result inp)) (\<lambda>(ret, frame).
     then_do (\<lambda>c. if live_render c then est_colormap P frame c else (Inr frame, c)) (\<lambda>display_frame.
     then_do (lift (Inr (t_end inp))) (\<lambda>frame_end_time.
     then_do (lift (int_truediv_float 1 (float_sub frame_end_time frame_start_time))) (\<lambda>q.
     then_do (lift (py_round q)) (\<lambda>fps.
     then_do (\<lambda>c. (Inr (if live_render c then ''Depth Capture'' else ''Standard Camera''), c))
       (\<lambda>window_label.
     then_do (cv_putText P display_frame (''FPS: '' @ str_int fps) (10, 30) 0 (fl (7 / 10))
                (10, 255, 100) 2) (\<lambda>_.
     then_do (\<lambda>c. resize P display_frame (scale c) c) (\<lambda>resized.
     then_do (cv_imshow (show_fault inp) window_label resized) (\<lambda>_.
     lift (Inr frame)))))))))))"

text \<open>
  Lines 110 to 116 poll the key and act on it.  \<open>ord("q")\<close> is 113.
\<close>

definition handle_key :: "platform \<Rightarrow> iter_input \<Rightarrow> ref \<Rightarrow> flow comp" where
  "handle_key P inp frame =
     then_do (lift (key_result inp)) (\<lambda>key.
     then_do (\<lambda>c. if key = 32 \<and> \<not> live_render c then capture P (cap_env inp) frame c
                   else (Inr (), c)) (\<lambda>_.
     (\<lambda>c. if key = 27 \<or> key = 113
          then (Inr Break, (emit (Print ''Closing scanner...'') c)\<lparr>is_running := False\<rparr>)
          else (Inr Continue, c))))"

definition loop_body :: "platform \<Rightarrow> iter_input \<Rightarrow> flow comp" where
  "loop_body P inp = then_do (show_frame P inp) (handle_key P inp)"

text \<open>
  The loop itself.  The outside is a finite script, one entry for each pass; a loop that
  is still running when the script ends has not returned (\<open>ScriptEnded\<close>).
\<close>

datatype loop_end = LoopDone | LoopRaised exn | ScriptEnded

fun while_loop :: "platform \<Rightarrow> iter_input list \<Rightarrow> DepthCamera \<Rightarrow> loop_end \<times> DepthCamera" where
  "while_loop P [] c = (if is_running c then (ScriptEnded, c) else (LoopDone, c))"
| "while_loop P (inp # rest) c =
     (if is_running c
      then (case loop_body P inp c of
              (Inl e, c') \<Rightarrow> (LoopRaised e, c')
            | (Inr Break, c') \<Rightarrow> (LoopDone, c')
            | (Inr Continue, c') \<Rightarrow> while_loop P rest c')
      else (LoopDone, c))"

text \<open>Lines 96 and 97: the state is set to running and the device is logged.\<close>

definition start :: "DepthCamera \<Rightarrow> DepthCamera" where
  "start self =
     emit (Print (''['' @ upper (device self) @ ''] Running depth scan...''))
       (self\<lparr>is_running := True\<rparr>)"

text \<open>
  The \<open>finally\<close> clause, lines 122 and 123: if the release raises, the windows are
  not closed.
\<close>

definition finally_clause :: "platform \<Rightarrow> unit comp" where
  "finally_clause P = then_do (camera_release P) (\<lambda>_. cv_destroyAllWindows P)"

text \<open>
  How a call of \<open>run\<close> ends: it returns, an exception leaves it, or it is still in its
  loop when the script ends.
\<close>

datatype outcome = Returned DepthCamera | Raised exn DepthCamera | StillRunning DepthCamera

text \<open>
  Leaving the \<open>try\<close> statement, with the exception that no \<open>except\<close> clause has
  caught, if there is one.  The \<open>finally\<close> clause runs in each case.  An exception it
  raises replaces the pending one; otherwise the pending exception goes on; and line 125
  is reached when nothing is raised.
\<close>

definition leave_try :: "platform \<Rightarrow> exn option \<Rightarrow> DepthCamera \<Rightarrow> outcome" where
  "leave_try P pending c =
     (case finally_clause P c of
        (Inl e, c') \<Rightarrow> Raised e c'
      | (Inr u, c') \<Rightarrow>
          (case pending of
             Some e \<Rightarrow> Raised e c'
           | None \<Rightarrow> Returned (emit (Print ''Scanner closed!'') c')))"

text \<open>
  \<open>run\<close>.  The clause \<open>except Exception\<close> catches the exceptions that derive from
  \<open>Exception\<close> and logs them; any other is pending when the \<open>try\<close> statement is
  left.
\<close>

definition run :: "platform \<Rightarrow> iter_input list \<Rightarrow> DepthCamera \<Rightarrow> outcome" where
  "run P script self =
     (case while_loop P script (start self) of
        (ScriptEnded, c) \<Rightarrow> StillRunning c
      | (LoopDone, c) \<Rightarrow> leave_try P None c
      | (LoopRaised e, c) \<Rightarrow>
          (if is_Exception e
           then leave_try P None
                  (emit (Print (''Error during camera streaming: '' @ exn_str e)) c)
           else leave_try P (Some e) c))"

definition state_of :: "outcome \<Rightarrow> DepthCamera" where
  "state_of r = (case r of Returned c \<Rightarrow> c | Raised e c \<Rightarrow> c | StillRunning c \<Rightarrow> c)"

text \<open>The number \<open>round(1 / (end - start))\<close> of one pass, as lines 104 and 105 compute it.\<close>

definition fps_value :: "iter_input \<Rightarrow> exn + int" where
  "fps_value inp =
     (case int_truediv_float 1 (float_sub (t_end inp) (t_start inp)) of
        Inl e \<Rightarrow> Inl e
      | Inr q \<Rightarrow> py_round q)"

text \<open>Observations on a trace.\<close>

fun window_titles :: "event list \<Rightarrow> string list" where
  "window_titles [] = []"
| "window_titles (Imshow title img # evs) = title # window_titles evs"
| "window_titles (e # evs) = window_titles evs"

fun window_sizes :: "event list \<Rightarrow> (nat \<times> nat) list" where
  "window_sizes [] = []"
| "window_sizes (Imshow title img # evs) = (height img, width img) # window_sizes evs"
| "window_sizes (e # evs) = window_sizes evs"

fun capture_args :: "event list \<Rightarrow> image option list" where
  "capture_args [] = []"
| "capture_args (CaptureCall a # evs) = a # capture_args evs"
| "capture_args (e # evs) = capture_args evs"

text \<open>
  Predicates for reasoning about statements: \<open>same_config\<close> relates two objects
  that differ at most in the store and the trace; a statement is \<open>steady\<close> for a
  class of events when it leaves the configuration alone and only appends events of
  that class to the trace.
\<close>

fun is_teardown :: "event \<Rightarrow> bool" where
  "is_teardown CameraRelease = True"
| "is_teardown DestroyAllWindows = True"
| "is_teardown e = False"

fun is_capture_call :: "event \<Rightarrow> bool" where
  "is_capture_call (CaptureCall a) = True"
| "is_capture_call e = False"

definition same_config :: "DepthCamera \<Rightarrow> DepthCamera \<Rightarrow> bool" where
  "same_config c c' =
     (camera_num c' = camera_num c \<and> is_running c' = is_running c
      \<and> priv_scale c' = priv_scale c \<and> live_render c' = live_render c
      \<and> device c' = device c)"

definition steady :: "(event \<Rightarrow> bool) \<Rightarrow> 'a comp \<Rightarrow> bool" where
  "steady ok m =
     (\<forall>c. same_config c (snd (m c))
          \<and> (\<exists>evs. trace (snd (m c)) = trace c @ evs \<and> list_all ok evs))"

text \<open>The events one pass through the loop may add, given the live-render flag.\<close>

definition body_ok :: "bool \<Rightarrow> event \<Rightarrow> bool" where
  "body_ok live e =
     (\<not> is_teardown e \<and> e \<noteq> Print ''Scanner closed!'' \<and> (live \<longrightarrow> \<not> is_capture_call e))"

text \<open>The object a call of \<open>run\<close> leaves when it returns.\<close>

definition final :: "outcome \<Rightarrow> DepthCamera option" where
  "final r = (case r of Returned c \<Rightarrow> Some c | Raised e c \<Rightarrow> None | StillRunning c \<Rightarrow> None)"

text \<open>The store is well formed when nothing lives at or beyond the next free address.\<close>

definition heap_ok :: "DepthCamera \<Rightarrow> bool" where
  "heap_ok c = (\<forall>a. next_addr c \<le> a \<longrightarrow> heap c a = None)"

section \<open>A sample platform and sample inputs\<close>

text \<open>
  Stand-ins for the collaborators, to run the model on concrete inputs: the estimator
  inverts the pixel values and raises on \<open>None\<close>; the text rasteriser puts the green
  component of the colour at the pixel of the text origin; the resampling picks the
  nearest source pixel, and fails for a result of \<open>2^31\<close> elements or more; the
  release and the closing of the windows do not raise.
\<close>

definition sample_colormap :: "image option \<Rightarrow> exn + image" where
  "sample_colormap fr =
     (case fr of
        None \<Rightarrow> Inl (PlatformError ''colormap: no frame'')
      | Some img \<Rightarrow> Inr (img\<lparr>pixels := map (\<lambda>v. 255 - v) (pixels img)\<rparr>))"

definition mark_origin :: "image \<Rightarrow> int \<times> int \<Rightarrow> nat \<times> nat \<times> nat \<Rightarrow> image" where
  "mark_origin img org color =
     img\<lparr>pixels := (pixels img)
            [(nat (snd org) * width img + nat (fst org)) * channels img + 1 := fst (snd color)]\<rparr>"

definition sample_putText ::
  "image \<Rightarrow> string \<Rightarrow> int \<times> int \<Rightarrow> int \<Rightarrow> pyfloat \<Rightarrow> nat \<times> nat \<times> nat \<Rightarrow> nat \<Rightarrow> exn + image"
where
  "sample_putText img text org face fscale color thickness = Inr (mark_origin img org color)"

definition sample_pixels :: "image \<Rightarrow> nat \<Rightarrow> nat \<Rightarrow> nat list" where
  "sample_pixels src h w =
     concat (map (\<lambda>y. concat (map (\<lambda>x. map (\<lambda>k.
       pixels src ! (((y * height src) div h * width src + (x * width src) div w) * channels src + k))
       [0..<channels src]) [0..<w])) [0..<h])"

definition sample_inter_area :: "image \<Rightarrow> nat \<Rightarrow> nat \<Rightarrow> exn + nat list" where
  "sample_inter_area src h w =
     (if 2 ^ 31 \<le> h * w * channels src then Inl (PlatformError ''resize: insufficient memory'')
      else Inr (sample_pixels src h w))"

definition sample_platform :: platform where
  "sample_platform =
     \<lparr>colormap_fn = sample_colormap, putText_fn = sample_putText, inter_area = sample_inter_area,
      release_fault = None, destroy_fault = None\<rparr>"

text \<open>A black 480 by 640 frame with three channels, as a webcam delivers.\<close>

definition black_pixels :: "nat list" where
  "black_pixels = replicate (480 * 640 * 3) 0"

definition black_frame :: image where
  "black_frame = \<lparr>height = 480, width = 640, channels = 3, pixels = black_pixels\<rparr>"

text \<open>
  The object \<open>DepthCamera()\<close> builds with its default arguments (camera 0, scale 1.0),
  with an estimator on the CPU that does not render live; \<open>live_camera\<close> is the same with
  an estimator that does.
\<close>

definition new_camera :: DepthCamera where
  "new_camera =
     \<lparr>camera_num = 0, is_running = False, priv_scale = Finite 1, live_render = False,
      device = ''cpu'', heap = (\<lambda>a. None), next_addr = 0, trace = []\<rparr>"

definition live_camera :: DepthCamera where
  "live_camera = new_camera\<lparr>live_render := True\<rparr>"

text \<open>The new object with a black frame in its store, at address 0.\<close>

definition loaded_camera :: DepthCamera where
  "loaded_camera = snd (alloc black_frame new_camera)"

definition noon :: datetime where
  "noon = \<lparr>year = 2024, month = 5, day = 17, hour = 12, minute = 0, second = 0,
           microsecond = 100000\<rparr>"

definition sample_env :: capture_env where
  "sample_env = \<lparr>now_date = noon, now_time = noon, capture_show_fault = None\<rparr>"

text \<open>
  A pass that reads a black frame in 1/32 of a second (the two clock readings are
  doubles) and polls the key \<open>k\<close>.
\<close>

definition frame_input :: "int \<Rightarrow> iter_input" where
  "frame_input k =
     \<lparr>t_start = Finite 2, read_result = Inr (True, Some black_frame), t_end = Finite (65 / 32),
      show_fault = None, key_result = Inr k, cap_env = sample_env\<rparr>"

section \<open>Facts about the library functions and the sample data\<close>

subsection \<open>Rounding to a double\<close>

lemma round_half_even_of_int: "round_half_even (of_int n) = n"
  by (simp add: round_half_even_def)

lemma round_half_even_le:
  assumes "z \<le> of_int n"
  shows "round_half_even z \<le> n"
proof -
  have f: "\<lfloor>z\<rfloor> \<le> n" using assms by (simp add: floor_le_iff)
  show ?thesis
  proof (cases "z = of_int \<lfloor>z\<rfloor>")
    case True
    then have "round_half_even z = \<lfloor>z\<rfloor>"
      using round_half_even_of_int [of "\<lfloor>z\<rfloor>"] by simp
    with f show ?thesis by simp
  next
    case False
    then have "of_int \<lfloor>z\<rfloor> < z" using of_int_floor_le [of z] by linarith
    with assms have "of_int \<lfloor>z\<rfloor> < (of_int n :: rat)" by linarith
    then have "\<lfloor>z\<rfloor> < n" by simp
    then show ?thesis by (auto simp: round_half_even_def Let_def)
  qed
qed

lemma pow2_less_iff: "(power_int 2 m :: rat) < power_int 2 n \<longleftrightarrow> m < n"
proof
  assume l: "(power_int 2 m :: rat) < power_int 2 n"
  show "m < n"
  proof (rule ccontr)
    assume "\<not> m < n"
    then have "n \<le> m" by simp
    then have "(power_int 2 n :: rat) \<le> power_int 2 m" by (intro power_int_increasing) simp_all
    with l show False by simp
  qed
next
  assume "m < n"
  then show "(power_int 2 m :: rat) < power_int 2 n" by (intro power_int_strict_increasing) simp_all
qed

lemma pow2_add: "(power_int 2 (m + n) :: rat) = power_int 2 m * power_int 2 n"
  by (simp add: power_int_add)

lemma ilog2_bounds:
  assumes "0 < a"
  shows "power_int 2 (ilog2 a) \<le> a \<and> a < power_int 2 (ilog2 a + 1)"
proof -
  obtain n d where q: "quotient_of a = (n, d)" by (cases "quotient_of a")
  then have a: "a = of_int n / of_int d" and d: "0 < d"
    by (auto dest: quotient_of_div quotient_of_denom_pos)
  with assms have n: "0 < n" by (simp add: zero_less_divide_iff)
  define bn where "bn = bitlen n"
  define bd where "bd = bitlen d"
  from bitlen_bounds [OF n] have nb: "2 ^ nat (bn - 1) \<le> n" "n < 2 ^ nat bn"
    by (simp_all add: bn_def)
  from bitlen_bounds [OF d] have db: "2 ^ nat (bd - 1) \<le> d" "d < 2 ^ nat bd"
    by (simp_all add: bd_def)
  have bn1: "1 \<le> bn" using n by (auto simp: bn_def bitlen_alt_def)
  have bd1: "1 \<le> bd" using d by (auto simp: bd_def bitlen_alt_def)
  have pn: "(power_int 2 (bn - 1) :: rat) \<le> of_int n" "(of_int n :: rat) < power_int 2 bn"
  proof -
    have "(of_int (2 ^ nat (bn - 1)) :: rat) \<le> of_int n" using nb(1) by (simp only: of_int_le_iff)
    then show "(power_int 2 (bn - 1) :: rat) \<le> of_int n" using bn1 by (simp add: power_int_def)
    have "(of_int n :: rat) < of_int (2 ^ nat bn)" using nb(2) by (simp only: of_int_less_iff)
    then show "(of_int n :: rat) < power_int 2 bn" using bn1 by (simp add: power_int_def)
  qed
  have pd: "(power_int 2 (bd - 1) :: rat) \<le> of_int d" "(of_int d :: rat) < power_int 2 bd"
  proof -
    have "(of_int (2 ^ nat (bd - 1)) :: rat) \<le> of_int d" using db(1) by (simp only: of_int_le_iff)
    then show "(power_int 2 (bd - 1) :: rat) \<le> of_int d" using bd1 by (simp add: power_int_def)
    have "(of_int d :: rat) < of_int (2 ^ nat bd)" using db(2) by (simp only: of_int_less_iff)
    then show "(of_int d :: rat) < power_int 2 bd" using bd1 by (simp add: power_int_def)
  qed
  have dpos: "(0::rat) < of_int d" using d by simp
  have npos: "(0::rat) < of_int n" using n by simp
  have up: "a < power_int 2 (bn - bd + 1)"
  proof -
    have "a * of_int d = of_int n" using a dpos by simp
    also have "\<dots> < power_int 2 bn" by (rule pn(2))
    also have "\<dots> = power_int 2 (bn - bd + 1) * power_int 2 (bd - 1)"
      by (simp add: power_int_add [symmetric])
    also have "\<dots> \<le> power_int 2 (bn - bd + 1) * of_int d"
      using pd(1) by (intro mult_left_mono) simp_all
    finally show ?thesis using dpos by simp
  qed
  have lo: "power_int 2 (bn - bd - 1) < a"
  proof -
    have "power_int 2 (bn - bd - 1) * of_int d < power_int 2 (bn - bd - 1) * (power_int 2 bd :: rat)"
      using pd(2) by (intro mult_strict_left_mono) simp_all
    also have "\<dots> = power_int 2 (bn - 1)" by (simp add: power_int_add [symmetric])
    also have "\<dots> \<le> of_int n" by (rule pn(1))
    also have "\<dots> = a * of_int d" using a dpos by simp
    finally show ?thesis using dpos by simp
  qed
  show ?thesis
  proof (cases "power_int 2 (bn - bd) \<le> a")
    case True
    then have "ilog2 a = bn - bd" by (simp add: ilog2_def q bn_def bd_def)
    with True up show ?thesis by simp
  next
    case False
    then have "ilog2 a = bn - bd - 1" by (simp add: ilog2_def q bn_def bd_def)
    with False lo show ?thesis by simp
  qed
qed

lemma ilog2_eqI:
  assumes "power_int 2 e \<le> a" and "a < power_int 2 (e + 1)"
  shows "ilog2 a = e"
proof -
  have pos: "0 < a" using assms(1) by (rule less_le_trans [rotated]) simp
  note b = ilog2_bounds [OF pos]
  have "(power_int 2 e :: rat) < power_int 2 (ilog2 a + 1)" using assms(1) b by linarith
  then have 1: "e < ilog2 a + 1" by (simp add: pow2_less_iff)
  have "(power_int 2 (ilog2 a) :: rat) < power_int 2 (e + 1)" using assms(2) b by linarith
  then have 2: "ilog2 a < e + 1" by (simp add: pow2_less_iff)
  from 1 2 show ?thesis by simp
qed

text \<open>A value in the normal or subnormal range rounds on the grid of its binade.\<close>

lemma fl_normal:
  assumes "power_int 2 (q + 52) \<le> x" and "x < power_int 2 (q + 53)"
    and "- 1074 \<le> q" and "q \<le> 970"
  shows "fl x = Finite (of_int (round_half_even (x / power_int 2 q)) * power_int 2 q)"
proof -
  have pos: "0 < x" using assms(1) by (rule less_le_trans [rotated]) simp
  have e: "ilog2 x = q + 52" using assms(1,2) by (intro ilog2_eqI) (simp_all add: add.commute)
  have qq: "max (ilog2 x - 52) (- 1074) = q" using e assms(3) by simp
  have "x / power_int 2 q < of_int (2 ^ 53)"
  proof -
    have "x < power_int 2 q * power_int 2 53"
      using assms(2) by (simp only: pow2_add)
    then show ?thesis by (simp add: pos_divide_less_eq mult.commute)
  qed
  then have "round_half_even (x / power_int 2 q) \<le> 2 ^ 53"
    by (intro round_half_even_le) simp
  then have "(of_int (round_half_even (x / power_int 2 q)) :: rat) \<le> of_int (2 ^ 53)"
    by (simp only: of_int_le_iff)
  then have "of_int (round_half_even (x / power_int 2 q)) * power_int 2 q
      \<le> of_int (2 ^ 53) * (power_int 2 q :: rat)"
    by (intro mult_right_mono) simp_all
  also have "\<dots> = power_int 2 (q + 53)" by (simp add: pow2_add)
  also have "\<dots> < power_int 2 1024" using assms(4) by (subst pow2_less_iff) simp
  finally have "\<not> (power_int 2 1024 :: rat) \<le> of_int (round_half_even (x / power_int 2 q)) * power_int 2 q"
    by simp
  with pos qq show ?thesis by (simp add: fl_def Let_def)
qed

lemma fl_zero: "fl 0 = Finite 0"
  by (simp add: fl_def)

text \<open>Integers below \<open>2^53\<close> are doubles.\<close>

lemma fl_of_nat:
  assumes "n < 2 ^ 53"
  shows "fl (of_nat n) = Finite (of_nat n)"
proof (cases "n = 0")
  case True
  then show ?thesis by (simp add: fl_zero)
next
  case False
  define x :: rat where "x = of_nat n"
  have pos: "0 < x" using False by (simp add: x_def)
  note b = ilog2_bounds [OF pos]
  define e where "e = ilog2 x"
  have "x < of_nat (2 ^ 53)" using assms unfolding x_def by (simp only: of_nat_less_iff)
  then have "x < power_int 2 53" by simp
  with b have "(power_int 2 e :: rat) < power_int 2 53" unfolding e_def by linarith
  then have e53: "e < 53" by (simp only: pow2_less_iff)
  have "1 \<le> x" using False unfolding x_def by (simp add: Suc_le_eq)
  with b have "(power_int 2 0 :: rat) < power_int 2 (e + 1)" unfolding e_def by simp
  then have e0: "0 \<le> e" by (simp only: pow2_less_iff)
  define q where "q = e - 52"
  have q: "- 1074 \<le> q" "q \<le> 0" using e53 e0 by (simp_all add: q_def)
  have r: "x / power_int 2 q = of_int (int n * 2 ^ nat (- q))"
    using q by (simp add: power_int_def x_def field_simps)
  have "fl x = Finite (of_int (round_half_even (x / power_int 2 q)) * power_int 2 q)"
    using b q by (intro fl_normal) (simp_all add: e_def [symmetric] q_def add.commute)
  also have "of_int (round_half_even (x / power_int 2 q)) * power_int 2 q = x"
    unfolding r round_half_even_of_int using q by (simp add: power_int_def x_def field_simps)
  finally show ?thesis by (simp add: x_def)
qed

text \<open>The same for a value whose binade lies below \<open>2^53\<close>, scaled up by \<open>2^k\<close>.\<close>

lemma fl_scaled:
  assumes "2 ^ 52 \<le> x * 2 ^ k" and "x * 2 ^ k < 2 ^ 53" and "k \<le> 1074"
  shows "fl x = Finite (of_int (round_half_even (x * 2 ^ k)) / 2 ^ k)"
proof -
  have p: "(power_int 2 (- int k) :: rat) = 1 / 2 ^ k"
    by (simp add: power_int_minus_divide)
  have e52: "(power_int 2 (- int k + 52) :: rat) = 2 ^ 52 / 2 ^ k"
    by (simp only: pow2_add p) simp
  have e53: "(power_int 2 (- int k + 53) :: rat) = 2 ^ 53 / 2 ^ k"
    by (simp only: pow2_add p) simp
  have a: "power_int 2 (- int k + 52) \<le> x"
    unfolding e52 using assms(1) by (simp add: pos_divide_le_eq)
  have b: "x < power_int 2 (- int k + 53)"
    unfolding e53 using assms(2) by (simp add: pos_less_divide_eq)
  from fl_normal [OF a b] assms(3) show ?thesis by (simp add: p)
qed

text \<open>A value on the grid of its binade is a double.\<close>

lemma fl_exact:
  assumes "x * 2 ^ k = of_int m" and "2 ^ 52 \<le> m" and "m < 2 ^ 53" and "k \<le> 1074"
  shows "fl x = Finite x"
proof -
  have "(of_int (2 ^ 52) :: rat) \<le> of_int m" using assms(2) by (simp only: of_int_le_iff)
  then have a: "2 ^ 52 \<le> x * 2 ^ k" using assms(1) by simp
  have "(of_int m :: rat) < of_int (2 ^ 53)" using assms(3) by (simp only: of_int_less_iff)
  then have b: "x * 2 ^ k < 2 ^ 53" using assms(1) by simp
  have "fl x = Finite (of_int (round_half_even (x * 2 ^ k)) / 2 ^ k)"
    using a b assms(4) by (rule fl_scaled)
  also have "of_int (round_half_even (x * 2 ^ k)) / 2 ^ k = x"
    unfolding assms(1) round_half_even_of_int using assms(1) [symmetric] by simp
  finally show ?thesis .
qed

lemma float_of_int_nat:
  assumes "n < 2 ^ 53"
  shows "float_of_int (int n) = Inr (Finite (of_nat n))"
  using fl_of_nat [OF assms] by (simp add: float_of_int_def)

lemma float_of_int_one: "float_of_int 1 = Inr (Finite 1)"
  using float_of_int_nat [of 1] by simp

text \<open>\<open>round(n * 1.0)\<close> is \<open>n\<close>, and \<open>round(0 * x)\<close> can only be 0.\<close>

lemma round_mul_one:
  assumes "n < 2 ^ 53"
  shows "round_mul n (Finite 1) = Inr (int n)"
proof -
  have "py_round (fl (of_nat n)) = Inr (int n)"
    using round_half_even_of_int [of "int n"] by (simp add: fl_of_nat [OF assms])
  then show ?thesis
    by (simp add: round_mul_def int_mul_float_def float_of_int_nat [OF assms])
qed

lemma round_mul_zero:
  assumes "round_mul 0 x = Inr r"
  shows "r = 0"
proof -
  have z: "float_of_int 0 = Inr (Finite 0)" using float_of_int_nat [of 0] by simp
  have r0: "round_half_even 0 = 0" using round_half_even_of_int [of 0] by simp
  from assms show ?thesis
    by (cases x) (simp_all add: round_mul_def int_mul_float_def z fl_zero r0)
qed

subsection \<open>The doubles of the sample runs\<close>

lemma fl_one_32nd: "fl (1 / 32) = Finite (1 / 32)"
  by (rule fl_exact [where k = 57 and m = "2 ^ 52"]) simp_all

lemma round_half_even_numeral: "round_half_even (numeral n) = numeral n"
  using round_half_even_of_int [of "numeral n"] by simp

lemma round_mul_half: "round_mul 640 (Finite (1 / 2)) = Inr 320" "round_mul 480 (Finite (1 / 2)) = Inr 240"
proof -
  have "fl 320 = Finite 320" "fl 240 = Finite 240"
    using fl_of_nat [of 320] fl_of_nat [of 240] by simp_all
  moreover have "float_of_int 640 = Inr (Finite 640)" "float_of_int 480 = Inr (Finite 480)"
    using float_of_int_nat [of 640] float_of_int_nat [of 480] by simp_all
  ultimately show "round_mul 640 (Finite (1 / 2)) = Inr 320" "round_mul 480 (Finite (1 / 2)) = Inr 240"
    by (simp_all add: round_mul_def int_mul_float_def round_half_even_numeral)
qed

text \<open>The literal \<open>0.001\<close>, and the products \<open>640 * 0.001\<close> and \<open>480 * 0.001\<close>.\<close>

lemma fl_thousandth: "fl (1 / 1000) = Finite (1152921504606847 / 1152921504606846976)"
proof -
  have "fl (1 / 1000) = Finite (of_int (round_half_even (1 / 1000 * 2 ^ 62)) / 2 ^ 62)"
    by (rule fl_scaled) simp_all
  also have "round_half_even (1 / 1000 * 2 ^ 62) = 4611686018427388" by code_simp
  finally show ?thesis by simp
qed

lemma round_mul_thousandth:
  "round_mul 640 (Finite (1152921504606847 / 1152921504606846976)) = Inr 1"
  "round_mul 480 (Finite (1152921504606847 / 1152921504606846976)) = Inr 0"
proof -
  have "fl (640 * (1152921504606847 / 1152921504606846976))
      = Finite (of_int (round_half_even (640 * (1152921504606847 / 1152921504606846976) * 2 ^ 53)) / 2 ^ 53)"
    by (rule fl_scaled) simp_all
  also have "round_half_even (640 * (1152921504606847 / 1152921504606846976) * 2 ^ 53)
      = 5764607523034235" by code_simp
  finally have w: "fl (640 * (1152921504606847 / 1152921504606846976))
      = Finite (5764607523034235 / 2 ^ 53)" by simp
  have "fl (480 * (1152921504606847 / 1152921504606846976))
      = Finite (of_int (round_half_even (480 * (1152921504606847 / 1152921504606846976) * 2 ^ 54)) / 2 ^ 54)"
    by (rule fl_scaled) simp_all
  also have "round_half_even (480 * (1152921504606847 / 1152921504606846976) * 2 ^ 54)
      = 8646911284551352" by code_simp
  finally have h: "fl (480 * (1152921504606847 / 1152921504606846976))
      = Finite (8646911284551352 / 2 ^ 54)" by simp
  have rw: "round_half_even (5764607523034235 / 2 ^ 53) = 1" by code_simp
  have rh: "round_half_even (8646911284551352 / 2 ^ 54) = 0" by code_simp
  have f: "float_of_int 640 = Inr (Finite 640)" "float_of_int 480 = Inr (Finite 480)"
    using float_of_int_nat [of 640] float_of_int_nat [of 480] by simp_all
  show "round_mul 640 (Finite (1152921504606847 / 1152921504606846976)) = Inr 1"
    by (simp only: round_mul_def int_mul_float_def f sum.case float_mul.simps w py_round.simps rw
        of_nat_numeral)
  show "round_mul 480 (Finite (1152921504606847 / 1152921504606846976)) = Inr 0"
    by (simp only: round_mul_def int_mul_float_def f sum.case float_mul.simps h py_round.simps rh
        of_nat_numeral)
qed

text \<open>
  The literal \<open>0.1\<close> and the product \<open>5 * 0.1\<close>: the exact product lies above one
  half, the float product is one half, and \<open>round\<close> gives 0.
\<close>

lemma round_mul_tenth:
  "fl (1 / 10) = Finite (3602879701896397 / 36028797018963968)"
  "round_mul 5 (Finite (3602879701896397 / 36028797018963968)) = Inr 0"
  "round_half_even (5 * (3602879701896397 / 36028797018963968)) = 1"
proof -
  have "fl (1 / 10) = Finite (of_int (round_half_even (1 / 10 * 2 ^ 56)) / 2 ^ 56)"
    by (rule fl_scaled) simp_all
  also have "round_half_even (1 / 10 * 2 ^ 56) = 7205759403792794" by code_simp
  finally show "fl (1 / 10) = Finite (3602879701896397 / 36028797018963968)" by simp
  have "fl (5 * (3602879701896397 / 36028797018963968))
      = Finite (of_int (round_half_even (5 * (3602879701896397 / 36028797018963968) * 2 ^ 53)) / 2 ^ 53)"
    by (rule fl_scaled) simp_all
  also have "round_half_even (5 * (3602879701896397 / 36028797018963968) * 2 ^ 53)
      = 4503599627370496" by code_simp
  finally have p: "fl (5 * (3602879701896397 / 36028797018963968)) = Finite (4503599627370496 / 2 ^ 53)"
    by simp
  have r: "round_half_even (4503599627370496 / 2 ^ 53) = 0" by code_simp
  have f: "float_of_int 5 = Inr (Finite 5)" using float_of_int_nat [of 5] by simp
  show "round_mul 5 (Finite (3602879701896397 / 36028797018963968)) = Inr 0"
    by (simp only: round_mul_def int_mul_float_def f sum.case float_mul.simps p py_round.simps r
        of_nat_numeral)
  show "round_half_even (5 * (3602879701896397 / 36028797018963968)) = 1" by code_simp
qed

subsection \<open>The sample data\<close>

lemma black_frame_fields:
  "height black_frame = 480" "width black_frame = 640" "channels black_frame = 3"
  "pixels black_frame = black_pixels"
  by (simp_all add: black_frame_def)

lemma loaded_camera_eq:
  "loaded_camera = new_camera\<lparr>heap := (\<lambda>a. None)(0 \<mapsto> black_frame), next_addr := Suc 0\<rparr>"
  by (simp add: loaded_camera_def alloc_def new_camera_def)

lemma loaded_camera_facts:
  "heap_ok loaded_camera" "deref loaded_camera (Ref 0) = Some black_frame"
  by (simp_all add: loaded_camera_eq heap_ok_def deref_def new_camera_def)

lemma class_properties_eq:
  "class_properties =
     [(''set_scale'', Property (Some scale) (Some set_scale)),
      (''scale'', Property (Some scale) None)]"
  by (simp add: class_properties_def property_def setter_def)

lemma frame_input_fields:
  "t_start (frame_input k) = Finite 2" "t_end (frame_input k) = Finite (65 / 32)"
  "read_result (frame_input k) = Inr (True, Some black_frame)"
  "show_fault (frame_input k) = None" "key_result (frame_input k) = Inr k"
  "cap_env (frame_input k) = sample_env"
  by (simp_all add: frame_input_def)

lemma fps_value_sample: "fps_value (frame_input k) = Inr 32"
proof -
  have "fl 32 = Finite 32" using fl_of_nat [of 32] by simp
  then show ?thesis
    by (simp add: fps_value_def frame_input_fields int_truediv_float_def float_of_int_one
        fl_one_32nd round_half_even_numeral)
qed

lemma sample_platform_fields:
  "colormap_fn sample_platform = sample_colormap"
  "putText_fn sample_platform = sample_putText"
  "inter_area sample_platform = sample_inter_area"
  "release_fault sample_platform = None" "destroy_fault sample_platform = None"
  by (simp_all add: sample_platform_def)

section \<open>Frame rules for the statements\<close>

lemma same_config_trans: "same_config a b \<Longrightarrow> same_config b c \<Longrightarrow> same_config a c"
  by (simp add: same_config_def)

lemma steadyI:
  assumes "\<And>c. same_config c (snd (m c))"
    and "\<And>c. \<exists>evs. trace (snd (m c)) = trace c @ evs \<and> list_all ok evs"
  shows "steady ok m"
  using assms by (simp add: steady_def)

lemma steady_then_do:
  assumes m: "steady ok m" and f: "\<And>x. steady ok (f x)"
  shows "steady ok (then_do m f)"
proof (rule steadyI)
  fix c
  obtain r c1 where mc: "m c = (r, c1)" by (cases "m c")
  from m have s1: "same_config c c1" and "\<exists>evs. trace c1 = trace c @ evs \<and> list_all ok evs"
    using mc by (auto simp: steady_def dest: spec [of _ c])
  then obtain evs1 where t1: "trace c1 = trace c @ evs1" "list_all ok evs1" by blast
  show "same_config c (snd (then_do m f c))"
  proof (cases r)
    case (Inl e)
    then show ?thesis using mc s1 by (simp add: then_do_def)
  next
    case (Inr x)
    from f [of x] have "same_config c1 (snd (f x c1))" by (simp add: steady_def)
    with s1 show ?thesis using mc Inr by (auto simp: then_do_def intro: same_config_trans)
  qed
  show "\<exists>evs. trace (snd (then_do m f c)) = trace c @ evs \<and> list_all ok evs"
  proof (cases r)
    case (Inl e)
    then show ?thesis using mc t1 by (simp add: then_do_def)
  next
    case (Inr x)
    from f [of x] obtain evs2 where "trace (snd (f x c1)) = trace c1 @ evs2" "list_all ok evs2"
      by (auto simp: steady_def)
    with t1 show ?thesis using mc Inr by (simp add: then_do_def)
  qed
qed

lemma steady_lift: "steady ok (lift r)"
  by (simp add: steady_def lift_def same_config_def)

lemma steady_pure: "steady ok (\<lambda>c. (g c, c))"
  by (simp add: steady_def same_config_def)

lemma steady_if:
  "steady ok m \<Longrightarrow> steady ok n \<Longrightarrow> steady ok (\<lambda>c. if b c then m c else n c)"
  by (simp add: steady_def)

lemma steady_camera_read: "steady ok (camera_read r)"
  by (auto simp: steady_def camera_read_def alloc_def same_config_def
      split: sum.splits prod.splits option.splits)

lemma steady_est_colormap: "steady ok (est_colormap P frame)"
  by (auto simp: steady_def est_colormap_def alloc_def same_config_def
      split: sum.splits prod.splits option.splits)

lemma steady_cv_putText: "steady ok (cv_putText P img text org face fscale color thickness)"
  by (auto simp: steady_def cv_putText_def same_config_def
      split: sum.splits ref.splits option.splits)

lemma steady_cv_resize: "steady ok (cv_resize P src dsize)"
  by (auto simp: steady_def cv_resize_def alloc_def same_config_def split: sum.splits)

lemma steady_resize: "steady ok (resize P img factor)"
proof -
  have "steady ok (then_do (lift (round_mul (width src) factor)) (\<lambda>new_width.
          then_do (lift (round_mul (height src) factor)) (\<lambda>new_height.
          cv_resize P src (new_width, new_height))))" for src
    by (intro steady_then_do steady_lift steady_cv_resize)
  then show ?thesis
    by (auto simp: steady_def resize_def same_config_def split: option.splits)
qed

lemma steady_resize_scale: "steady ok (\<lambda>c. resize P img (scale c) c)"
proof (rule steadyI)
  fix c
  from steady_resize [of ok P img "scale c"]
  show "same_config c (snd (resize P img (scale c) c))"
    and "\<exists>evs. trace (snd (resize P img (scale c) c)) = trace c @ evs \<and> list_all ok evs"
    by (simp_all add: steady_def)
qed

lemma steady_cv_imshow:
  assumes "\<And>content. ok (Imshow title content)"
  shows "steady ok (cv_imshow fault title img)"
  using assms
  by (auto simp: steady_def cv_imshow_def emit_def same_config_def split: option.splits)

lemma steady_show_frame:
  assumes "\<And>title content. ok (Imshow title content)"
  shows "steady ok (show_frame P inp)"
  unfolding show_frame_def
  by (intro steady_then_do steady_lift steady_pure steady_if steady_camera_read
      steady_est_colormap steady_cv_putText steady_resize_scale steady_cv_imshow assms
      | simp only: split_paired_all prod.case)+

lemma steady_capture:
  assumes "\<And>title content. ok (Imshow title content)"
    and "\<And>d t. ok (Print (''['' @ d @ '' | '' @ t @ ''] Frame captured!''))"
    and "\<And>a. ok (CaptureCall a)"
  shows "steady ok (capture P env frame)"
proof -
  have emit_ok: "steady ok (\<lambda>c. (Inr (), emit (g c) c))" if "\<And>c. ok (g c)" for g
    using that by (simp add: steady_def emit_def same_config_def)
  show ?thesis
    unfolding capture_def
    by (intro steady_then_do steady_lift steady_est_colormap steady_cv_imshow emit_ok assms)
qed

text \<open>What one pass through the loop does to the configuration and the trace.\<close>

lemma handle_key_effect:
  assumes "handle_key P inp frame c = (r, c')"
  shows "live_render c' = live_render c \<and> priv_scale c' = priv_scale c
         \<and> (r \<noteq> Inr Break \<longrightarrow> is_running c' = is_running c)
         \<and> (r = Inr Break \<longrightarrow> \<not> is_running c')
         \<and> (\<exists>evs. trace c' = trace c @ evs \<and> list_all (body_ok (live_render c)) evs)"
proof (cases "key_result inp")
  case (Inl e)
  with assms show ?thesis by (auto simp: handle_key_def then_do_def lift_def)
next
  case (Inr key)
  define m :: "unit comp" where
    "m = (\<lambda>c. if key = 32 \<and> \<not> live_render c then capture P (cap_env inp) frame c else (Inr (), c))"
  obtain u c1 where mc: "m c = (u, c1)" by (cases "m c")
  have st: "same_config c c1 \<and> (\<exists>evs. trace c1 = trace c @ evs \<and> list_all (body_ok (live_render c)) evs)"
  proof (cases "key = 32 \<and> \<not> live_render c")
    case True
    have "steady (body_ok False) (capture P (cap_env inp) frame)"
      by (rule steady_capture) (simp_all add: body_ok_def)
    with True mc show ?thesis by (auto simp: steady_def m_def dest: spec [of _ c])
  next
    case False
    with mc show ?thesis by (auto simp: m_def same_config_def)
  qed
  then obtain evs1 where e1: "trace c1 = trace c @ evs1" "list_all (body_ok (live_render c)) evs1"
    by blast
  from st have cfg: "live_render c1 = live_render c" "priv_scale c1 = priv_scale c"
    "is_running c1 = is_running c" by (simp_all add: same_config_def)
  have hk: "handle_key P inp frame c =
      (case u of Inl e \<Rightarrow> (Inl e, c1)
       | Inr _ \<Rightarrow> if key = 27 \<or> key = 113
           then (Inr Break, (emit (Print ''Closing scanner...'') c1)\<lparr>is_running := False\<rparr>)
           else (Inr Continue, c1))"
    using Inr mc by (simp add: handle_key_def then_do_def lift_def m_def split: sum.splits)
  show ?thesis
    using assms hk e1 cfg
    by (auto simp: emit_def body_ok_def split: sum.splits if_splits)
qed

lemma loop_body_effect:
  assumes "loop_body P inp c = (r, c')"
  shows "live_render c' = live_render c \<and> priv_scale c' = priv_scale c
         \<and> (r \<noteq> Inr Break \<longrightarrow> is_running c' = is_running c)
         \<and> (r = Inr Break \<longrightarrow> \<not> is_running c')
         \<and> (\<exists>evs. trace c' = trace c @ evs \<and> list_all (body_ok (live_render c)) evs)"
proof -
  have sf: "steady (body_ok (live_render c)) (show_frame P inp)"
    by (rule steady_show_frame) (simp add: body_ok_def)
  obtain r1 c1 where s1: "show_frame P inp c = (r1, c1)" by (cases "show_frame P inp c")
  from sf s1 have cfg: "same_config c c1"
    and "\<exists>evs. trace c1 = trace c @ evs \<and> list_all (body_ok (live_render c)) evs"
    by (auto simp: steady_def dest: spec [of _ c])
  then obtain evs1 where e1: "trace c1 = trace c @ evs1" "list_all (body_ok (live_render c)) evs1"
    by blast
  show ?thesis
  proof (cases r1)
    case (Inl e)
    with assms s1 have "r = Inl e" "c' = c1" by (simp_all add: loop_body_def then_do_def)
    with cfg e1 show ?thesis by (auto simp: same_config_def)
  next
    case (Inr frame)
    with assms s1 have "handle_key P inp frame c1 = (r, c')"
      by (simp add: loop_body_def then_do_def)
    from handle_key_effect [OF this] cfg e1 show ?thesis
      by (auto simp: same_config_def)
  qed
qed

lemma while_loop_effect:
  "while_loop P script c = (le, c') \<Longrightarrow>
     live_render c' = live_render c \<and> priv_scale c' = priv_scale c
     \<and> (\<exists>evs. trace c' = trace c @ evs \<and> list_all (body_ok (live_render c)) evs)"
proof (induction script arbitrary: c)
  case Nil
  then show ?case by (auto split: if_splits)
next
  case (Cons inp rest)
  show ?case
  proof (cases "is_running c")
    case False
    with Cons.prems show ?thesis by auto
  next
    case True
    obtain r c1 where b: "loop_body P inp c = (r, c1)" by (cases "loop_body P inp c")
    note eff = loop_body_effect [OF b]
    show ?thesis
    proof (cases "r = Inr Continue")
      case False
      with Cons.prems True b have "c' = c1"
        by (auto split: sum.splits flow.splits)
      with eff show ?thesis by simp
    next
      case True
      with Cons.prems \<open>is_running c\<close> b have "while_loop P rest c1 = (le, c')" by simp
      from Cons.IH [OF this] eff show ?thesis by auto
    qed
  qed
qed

section \<open>The loop and its passes\<close>

lemma fps_valueD:
  assumes "fps_value inp = Inr fps"
  shows "\<exists>q. int_truediv_float 1 (float_sub (t_end inp) (t_start inp)) = Inr q
           \<and> py_round q = Inr fps"
  using assms by (auto simp: fps_value_def split: sum.splits)

text \<open>
  The first block of a pass that goes well, with live render off and on: what it leaves
  in the store and what it shows.
\<close>

lemma show_frame_standard:
  assumes "\<not> live_render c" and "read_result inp = Inr (ret, Some raw)"
    and "fps_value inp = Inr fps" and "show_fault inp = None"
    and "putText_fn P raw (''FPS: '' @ str_int fps) (10, 30) 0 (fl (7 / 10)) (10, 255, 100) 2
           = Inr ann"
    and "round_mul (width ann) (priv_scale c) = Inr (int W)"
    and "round_mul (height ann) (priv_scale c) = Inr (int H)"
    and "0 < W" and "int W \<le> int_max" and "0 < H" and "int H \<le> int_max"
    and "inter_area P ann H W = Inr px"
  shows "show_frame P inp c =
     (Inr (Ref (next_addr c)),
      c\<lparr>heap := (heap c)(next_addr c \<mapsto> ann,
                          Suc (next_addr c) \<mapsto>
                            \<lparr>height = H, width = W, channels = channels ann, pixels = px\<rparr>),
        next_addr := Suc (Suc (next_addr c)),
        trace := trace c @ [Imshow ''Standard Camera''
                   \<lparr>height = H, width = W, channels = channels ann, pixels = px\<rparr>]\<rparr>)"
proof -
  from fps_valueD [OF assms(3)] obtain q where
    q: "int_truediv_float 1 (float_sub (t_end inp) (t_start inp)) = Inr q" "py_round q = Inr fps"
    by blast
  have hpos: "height ann \<noteq> 0"
    using assms(7,10) by (cases "height ann = 0") (auto dest: round_mul_zero)
  have wpos: "width ann \<noteq> 0"
    using assms(6,8) by (cases "width ann = 0") (auto dest: round_mul_zero)
  have im: "\<not> int_max < int W" "\<not> int_max < int H" "\<not> int W < - int_max - 1"
    "\<not> int H < - int_max - 1"
    using assms(9,11) by (simp_all add: int_max_def)
  show ?thesis
    using assms(1,2,4,5,6,7,8,10,12) q hpos wpos im
    by (simp add: show_frame_def then_do_def lift_def camera_read_def alloc_def
        cv_putText_def resize_def cv_resize_def cv_imshow_def deref_def emit_def scale_def)
qed

lemma show_frame_live:
  assumes "live_render c" and "read_result inp = Inr (ret, Some raw)"
    and "colormap_fn P (Some raw) = Inr depth"
    and "fps_value inp = Inr fps" and "show_fault inp = None"
    and "putText_fn P depth (''FPS: '' @ str_int fps) (10, 30) 0 (fl (7 / 10)) (10, 255, 100) 2
           = Inr ann"
    and "round_mul (width ann) (priv_scale c) = Inr (int W)"
    and "round_mul (height ann) (priv_scale c) = Inr (int H)"
    and "0 < W" and "int W \<le> int_max" and "0 < H" and "int H \<le> int_max"
    and "inter_area P ann H W = Inr px"
  shows "show_frame P inp c =
     (Inr (Ref (next_addr c)),
      c\<lparr>heap := (heap c)(next_addr c \<mapsto> raw, Suc (next_addr c) \<mapsto> ann,
                          Suc (Suc (next_addr c)) \<mapsto>
                            \<lparr>height = H, width = W, channels = channels ann, pixels = px\<rparr>),
        next_addr := Suc (Suc (Suc (next_addr c))),
        trace := trace c @ [Imshow ''Depth Capture''
                   \<lparr>height = H, width = W, channels = channels ann, pixels = px\<rparr>]\<rparr>)"
proof -
  from fps_valueD [OF assms(4)] obtain q where
    q: "int_truediv_float 1 (float_sub (t_end inp) (t_start inp)) = Inr q" "py_round q = Inr fps"
    by blast
  have hpos: "height ann \<noteq> 0"
    using assms(8,11) by (cases "height ann = 0") (auto dest: round_mul_zero)
  have wpos: "width ann \<noteq> 0"
    using assms(7,9) by (cases "width ann = 0") (auto dest: round_mul_zero)
  have im: "\<not> int_max < int W" "\<not> int_max < int H" "\<not> int W < - int_max - 1"
    "\<not> int H < - int_max - 1"
    using assms(10,12) by (simp_all add: int_max_def)
  show ?thesis
    using assms(1,2,3,5,6,7,8,9,11,13) q hpos wpos im
    by (simp add: show_frame_def then_do_def lift_def camera_read_def alloc_def
        est_colormap_def cv_putText_def resize_def cv_resize_def cv_imshow_def deref_def
        emit_def scale_def)
qed


lemma count_list_none: "list_all (\<lambda>e. e \<noteq> x) evs \<Longrightarrow> count_list evs x = 0"
  by (induction evs) auto

lemma body_ok_not_teardown:
  "list_all (body_ok live) evs \<Longrightarrow>
     list_all (\<lambda>e. \<not> is_teardown e \<and> e \<noteq> Print ''Scanner closed!'') evs"
  by (induction evs) (auto simp: body_ok_def)

lemma not_teardown_neq:
  "list_all (\<lambda>e. \<not> is_teardown e \<and> e \<noteq> Print ''Scanner closed!'') evs \<Longrightarrow>
     list_all (\<lambda>e. e \<noteq> CameraRelease) evs \<and> list_all (\<lambda>e. e \<noteq> DestroyAllWindows) evs"
  by (induction evs) auto

text \<open>The loop on a script that continues one on which it has not ended.\<close>

lemma while_loop_append:
  "while_loop P pre c = (ScriptEnded, c0) \<Longrightarrow>
     is_running c0 \<and> while_loop P (pre @ xs) c = while_loop P xs c0"
proof (induction pre arbitrary: c)
  case Nil
  then show ?case by (cases xs) (auto split: if_splits)
next
  case (Cons inp pre)
  from Cons.prems have r: "is_running c" by (auto split: if_splits)
  obtain res c1 where b: "loop_body P inp c = (res, c1)" by (cases "loop_body P inp c")
  with Cons.prems r have "res = Inr Continue" and "while_loop P pre c1 = (ScriptEnded, c0)"
    by (auto split: sum.splits flow.splits)
  with Cons.IH [of c1] r b show ?case by simp
qed

text \<open>The four ways of leaving the \<open>try\<close> statement.\<close>

lemma leave_try_eq:
  "leave_try P pending c =
     (case release_fault P of
        Some e \<Rightarrow> Raised e c
      | None \<Rightarrow>
          (case destroy_fault P of
             Some e \<Rightarrow> Raised e (c\<lparr>trace := trace c @ [CameraRelease]\<rparr>)
           | None \<Rightarrow>
               (case pending of
                  Some e \<Rightarrow> Raised e (c\<lparr>trace := trace c @ [CameraRelease, DestroyAllWindows]\<rparr>)
                | None \<Rightarrow>
                    Returned (c\<lparr>trace := trace c @ [CameraRelease, DestroyAllWindows,
                                                      Print ''Scanner closed!'']\<rparr>))))"
  by (simp add: leave_try_def finally_clause_def then_do_def camera_release_def
      cv_destroyAllWindows_def emit_def split: option.splits)

lemma run_cases:
  obtains (pending) c3 where "while_loop P script (start c) = (ScriptEnded, c3)"
      "run P script c = StillRunning c3"
  | (ended) c3 where "while_loop P script (start c) = (LoopDone, c3)"
      "run P script c = leave_try P None c3"
  | (caught) e c3 where "while_loop P script (start c) = (LoopRaised e, c3)" "is_Exception e"
      "run P script c
         = leave_try P None (c3\<lparr>trace := trace c3 @ [Print (''Error during camera streaming: ''
                                                           @ exn_str e)]\<rparr>)"
  | (passed) e c3 where "while_loop P script (start c) = (LoopRaised e, c3)" "\<not> is_Exception e"
      "run P script c = leave_try P (Some e) c3"
proof -
  let ?c2 = "start c"
  obtain le c3 where w: "while_loop P script ?c2 = (le, c3)" by (cases "while_loop P script ?c2")
  show ?thesis
  proof (cases le)
    case LoopDone
    with w show ?thesis by (intro ended [of c3]) (simp_all add: run_def)
  next
    case (LoopRaised e)
    show ?thesis
    proof (cases "is_Exception e")
      case True
      with w LoopRaised show ?thesis
        by (intro caught [of e c3]) (simp_all add: run_def emit_def)
    next
      case False
      with w LoopRaised show ?thesis by (intro passed [of e c3]) (simp_all add: run_def)
    qed
  next
    case ScriptEnded
    with w show ?thesis by (intro pending [of c3]) (simp_all add: run_def)
  qed
qed

text \<open>What the loop has added to the trace when it is left.\<close>

lemma loop_trace:
  assumes "while_loop P script (start c) = (le, c3)"
  shows "\<exists>evs. trace c3 = trace c @ evs \<and> live_render c3 = live_render c
           \<and> list_all (body_ok (live_render c)) evs"
proof -
  have t2: "trace (start c) = trace c @ [Print (''['' @ upper (device c) @ ''] Running depth scan...'')]"
    "live_render (start c) = live_render c"
    by (simp_all add: emit_def start_def)
  from while_loop_effect [OF assms] t2 obtain evs where
    "trace c3 = trace c @ Print (''['' @ upper (device c) @ ''] Running depth scan...'') # evs"
    "live_render c3 = live_render c" "list_all (body_ok (live_render c)) evs" by auto
  then show ?thesis
    by (intro exI [of _ "Print (''['' @ upper (device c) @ ''] Running depth scan...'') # evs"])
      (simp add: body_ok_def)
qed

lemma teardown_counts:
  assumes "list_all (\<lambda>e. \<not> is_teardown e \<and> e \<noteq> Print ''Scanner closed!'') evs"
  shows "count_list (evs @ [CameraRelease, DestroyAllWindows, Print ''Scanner closed!''])
           CameraRelease = 1
       \<and> count_list (evs @ [CameraRelease, DestroyAllWindows, Print ''Scanner closed!''])
           DestroyAllWindows = 1"
proof -
  from not_teardown_neq [OF assms] have "count_list evs CameraRelease = 0"
    "count_list evs DestroyAllWindows = 0" by (auto dest: count_list_none)
  then show ?thesis by simp
qed

text \<open>
  When the loop is left, \<open>run\<close> leaves the \<open>try\<close> statement: with no pending
  exception when the loop ended by itself or with an exception the \<open>except\<close> clause
  caught (and logged), with the exception pending otherwise.
\<close>

lemma run_left:
  assumes "while_loop P script (start c) = (le, c3)" and "le \<noteq> ScriptEnded"
  shows "\<exists>c4 evs pend. run P script c = leave_try P pend c4 \<and> trace c4 = trace c @ evs
           \<and> list_all (\<lambda>e. \<not> is_teardown e \<and> e \<noteq> Print ''Scanner closed!'') evs
           \<and> (\<forall>e. pend = Some e \<longrightarrow> \<not> is_Exception e)
           \<and> (pend = None) = (\<forall>e. le = LoopRaised e \<longrightarrow> is_Exception e)"
proof -
  from loop_trace [OF assms(1)] obtain evs where
    evs: "trace c3 = trace c @ evs" "list_all (body_ok (live_render c)) evs" by blast
  note ok = body_ok_not_teardown [OF evs(2)]
  show ?thesis
  proof (cases le)
    case LoopDone
    with assms(1) have "run P script c = leave_try P None c3" by (simp add: run_def)
    with evs(1) ok LoopDone show ?thesis by blast
  next
    case (LoopRaised e)
    show ?thesis
    proof (cases "is_Exception e")
      case True
      let ?c4 = "c3\<lparr>trace := trace c3 @ [Print (''Error during camera streaming: '' @ exn_str e)]\<rparr>"
      from assms(1) LoopRaised True have "run P script c = leave_try P None ?c4"
        by (simp add: run_def emit_def)
      moreover have "trace ?c4 = trace c
          @ (evs @ [Print (''Error during camera streaming: '' @ exn_str e)])"
        using evs(1) by simp
      moreover have "list_all (\<lambda>e. \<not> is_teardown e \<and> e \<noteq> Print ''Scanner closed!'')
          (evs @ [Print (''Error during camera streaming: '' @ exn_str e)])"
        using ok by simp
      ultimately show ?thesis using LoopRaised True by blast
    next
      case False
      with assms(1) LoopRaised have "run P script c = leave_try P (Some e) c3"
        by (simp add: run_def)
      with evs(1) ok LoopRaised False show ?thesis by blast
    qed
  next
    case ScriptEnded
    with assms(2) show ?thesis by simp
  qed
qed

text \<open>
  C2, as amended.  However the loop of \<open>run\<close> ended (the quit key, an exception
  raised in the loop body, or the loop condition), the \<open>finally\<close> clause runs once.
  When \<open>run\<close> returns, the events it added end with the release of the camera, the
  closing of the windows and the notice \<open>Scanner closed!\<close>, in this order, the release
  and the closing occurring exactly once.  When an exception leaves \<open>run\<close>, the notice
  is not emitted: either the release raised it (and nothing was released or closed), or
  the closing of the windows raised it (after the one release), or it is an exception
  from the loop body that does not derive from \<open>Exception\<close> (after the one release and
  the one closing).  And \<open>run\<close> returns exactly when its loop has ended, with no
  exception or with one that derives from \<open>Exception\<close>, and neither the release nor
  the closing raises.
\<close>

theorem run_teardown_once:
  "(\<forall>c'. run P script c = Returned c' \<longrightarrow>
      (\<exists>evs. trace c' = trace c @ evs @ [CameraRelease, DestroyAllWindows, Print ''Scanner closed!'']
          \<and> count_list (evs @ [CameraRelease, DestroyAllWindows, Print ''Scanner closed!''])
               CameraRelease = 1
          \<and> count_list (evs @ [CameraRelease, DestroyAllWindows, Print ''Scanner closed!''])
               DestroyAllWindows = 1))
   \<and> (\<forall>e c'. run P script c = Raised e c' \<longrightarrow>
      (\<exists>evs tl. trace c' = trace c @ evs @ tl
          \<and> list_all (\<lambda>x. \<not> is_teardown x \<and> x \<noteq> Print ''Scanner closed!'') evs
          \<and> (release_fault P = Some e \<and> tl = []
               \<or> release_fault P = None \<and> destroy_fault P = Some e \<and> tl = [CameraRelease]
               \<or> release_fault P = None \<and> destroy_fault P = None \<and> \<not> is_Exception e
                   \<and> tl = [CameraRelease, DestroyAllWindows])))
   \<and> ((\<exists>c'. run P script c = Returned c')
        = ((\<exists>le c1. while_loop P script (start c) = (le, c1) \<and> le \<noteq> ScriptEnded
                \<and> (\<forall>e. le = LoopRaised e \<longrightarrow> is_Exception e))
           \<and> release_fault P = None \<and> destroy_fault P = None))"
proof -
  obtain le c3 where w: "while_loop P script (start c) = (le, c3)"
    by (cases "while_loop P script (start c)")
  show ?thesis
  proof (cases "le = ScriptEnded")
    case True
    with w have "run P script c = StillRunning c3" by (simp add: run_def)
    with w True show ?thesis by simp
  next
    case False
    from run_left [OF w False] obtain c4 evs pend where
      r: "run P script c = leave_try P pend c4" and t: "trace c4 = trace c @ evs"
      and ok: "list_all (\<lambda>e. \<not> is_teardown e \<and> e \<noteq> Print ''Scanner closed!'') evs"
      and pe: "\<forall>e. pend = Some e \<longrightarrow> \<not> is_Exception e"
      and pn: "(pend = None) = (\<forall>e. le = LoopRaised e \<longrightarrow> is_Exception e)" by blast
    note cnt = teardown_counts [OF ok]
    have 1: "\<exists>evs. trace c' = trace c @ evs @ [CameraRelease, DestroyAllWindows, Print ''Scanner closed!'']
          \<and> count_list (evs @ [CameraRelease, DestroyAllWindows, Print ''Scanner closed!''])
               CameraRelease = 1
          \<and> count_list (evs @ [CameraRelease, DestroyAllWindows, Print ''Scanner closed!''])
               DestroyAllWindows = 1"
      if "run P script c = Returned c'" for c'
    proof -
      from that r have "trace c' = trace c @ evs @ [CameraRelease, DestroyAllWindows, Print ''Scanner closed!'']"
        using t by (auto simp: leave_try_eq split: option.splits)
      with cnt show ?thesis by blast
    qed
    have 2: "\<exists>evs tl. trace c' = trace c @ evs @ tl
          \<and> list_all (\<lambda>x. \<not> is_teardown x \<and> x \<noteq> Print ''Scanner closed!'') evs
          \<and> (release_fault P = Some e \<and> tl = []
               \<or> release_fault P = None \<and> destroy_fault P = Some e \<and> tl = [CameraRelease]
               \<or> release_fault P = None \<and> destroy_fault P = None \<and> \<not> is_Exception e
                   \<and> tl = [CameraRelease, DestroyAllWindows])"
      if "run P script c = Raised e c'" for e c'
    proof -
      from that r pe t have "\<exists>tl. trace c' = trace c @ evs @ tl
          \<and> (release_fault P = Some e \<and> tl = []
               \<or> release_fault P = None \<and> destroy_fault P = Some e \<and> tl = [CameraRelease]
               \<or> release_fault P = None \<and> destroy_fault P = None \<and> \<not> is_Exception e
                   \<and> tl = [CameraRelease, DestroyAllWindows])"
        by (auto simp: leave_try_eq split: option.splits)
      with ok show ?thesis by blast
    qed
    have 3: "(\<exists>c'. run P script c = Returned c')
        = ((\<exists>le c1. while_loop P script (start c) = (le, c1) \<and> le \<noteq> ScriptEnded
                \<and> (\<forall>e. le = LoopRaised e \<longrightarrow> is_Exception e))
           \<and> release_fault P = None \<and> destroy_fault P = None)"
    proof -
      have "(\<exists>c'. run P script c = Returned c')
          = (pend = None \<and> release_fault P = None \<and> destroy_fault P = None)"
        using r by (auto simp: leave_try_eq split: option.splits)
      with pn w False show ?thesis by auto
    qed
    from 1 2 3 show ?thesis by blast
  qed
qed

lemma leave_try_trace:
  "\<exists>tl. trace (state_of (leave_try P pending c)) = trace c @ tl
     \<and> list_all (\<lambda>e. \<not> is_capture_call e) tl"
  by (simp add: leave_try_eq state_of_def split: option.splits)

text \<open>
  C5.  With the \<open>live_render\<close> flag of the estimator set, no event that \<open>run\<close> adds
  to the trace is an entry into \<open>capture\<close>, for every script of polled keys and
  whether \<open>run\<close> has returned or is still in its loop.
\<close>

theorem live_render_never_captures:
  assumes "live_render c"
  shows "\<exists>evs. trace (state_of (run P script c)) = trace c @ evs
           \<and> list_all (\<lambda>e. \<not> is_capture_call e) evs"
proof -
  have nc: "list_all (body_ok True) evs \<Longrightarrow> list_all (\<lambda>e. \<not> is_capture_call e) evs" for evs
    by (induction evs) (auto simp: body_ok_def)
  have fin: "\<exists>evs. trace (state_of (leave_try P pend c4)) = trace c @ evs
           \<and> list_all (\<lambda>e. \<not> is_capture_call e) evs"
    if "trace c4 = trace c @ evs0" "list_all (\<lambda>e. \<not> is_capture_call e) evs0" for pend c4 evs0
  proof -
    from leave_try_trace [of P pend c4] obtain tl where
      "trace (state_of (leave_try P pend c4)) = trace c4 @ tl"
      "list_all (\<lambda>e. \<not> is_capture_call e) tl" by blast
    with that show ?thesis by (intro exI [of _ "evs0 @ tl"]) simp
  qed
  show ?thesis
  proof (cases rule: run_cases [of P script c])
    case (pending c3)
    from loop_trace [OF pending(1)] assms obtain evs where
      "trace c3 = trace c @ evs" "list_all (body_ok True) evs" by auto
    with pending(2) show ?thesis by (auto simp: state_of_def dest: nc)
  next
    case (ended c3)
    from loop_trace [OF ended(1)] assms obtain evs where
      "trace c3 = trace c @ evs" "list_all (body_ok True) evs" by auto
    with ended(2) show ?thesis by (auto intro: fin dest: nc)
  next
    case (caught e c3)
    from loop_trace [OF caught(1)] assms obtain evs where
      e: "trace c3 = trace c @ evs" "list_all (body_ok True) evs" by auto
    let ?c4 = "c3\<lparr>trace := trace c3 @ [Print (''Error during camera streaming: '' @ exn_str e)]\<rparr>"
    have "trace ?c4 = trace c @ (evs @ [Print (''Error during camera streaming: '' @ exn_str e)])"
      using e(1) by simp
    moreover have "list_all (\<lambda>e. \<not> is_capture_call e)
        (evs @ [Print (''Error during camera streaming: '' @ exn_str e)])"
      using nc [OF e(2)] by simp
    ultimately show ?thesis unfolding caught(3) by (rule fin)
  next
    case (passed e c3)
    from loop_trace [OF passed(1)] assms obtain evs where
      "trace c3 = trace c @ evs" "list_all (body_ok True) evs" by auto
    with passed(3) show ?thesis by (auto intro: fin dest: nc)
  qed
qed

lemma handle_key_quit:
  assumes "key_result inp = Inr k" and "k = 27 \<or> k = 113"
  shows "handle_key P inp frame c1 =
           (Inr Break, c1\<lparr>is_running := False, trace := trace c1 @ [Print ''Closing scanner...'']\<rparr>)"
  using assms by (auto simp: handle_key_def then_do_def lift_def emit_def)

lemma handle_key_capture:
  assumes "key_result inp = Inr 32" and "\<not> live_render c1"
  shows "handle_key P inp frame c1 =
           (case capture P (cap_env inp) frame c1 of
              (Inl e, c2) \<Rightarrow> (Inl e, c2)
            | (Inr u, c2) \<Rightarrow> (Inr Continue, c2))"
  using assms by (auto simp: handle_key_def then_do_def lift_def split: prod.splits sum.splits)

lemma handle_key_other:
  assumes "key_result inp = Inr k" and "k \<noteq> 27" and "k \<noteq> 113" and "k \<noteq> 32 \<or> live_render c1"
  shows "handle_key P inp frame c1 = (Inr Continue, c1)"
  using assms by (auto simp: handle_key_def then_do_def lift_def)


text \<open>
  C7.  In any pass of the loop (after a script \<open>pre\<close> on which the loop went on) in
  which the elapsed time, the float difference of the two clock readings, is zero (and
  the read and, in live mode, the transform did not raise before): the division for the
  FPS raises \<open>ZeroDivisionError\<close>; nothing in the body handles it, the loop is
  left with it, the \<open>except\<close> clause logs it, and the teardown runs: when the release
  and the closing of the windows do not raise, \<open>run\<close> returns with these events.
\<close>

theorem zero_elapsed_time:
  assumes "while_loop P pre (start c) = (ScriptEnded, c0)"
    and "read_result inp = Inr (ret, fr)"
    and "float_sub (t_end inp) (t_start inp) = Finite 0"
    and "live_render c \<longrightarrow> (\<exists>depth. colormap_fn P fr = Inr depth)"
  shows "fps_value inp = Inl ZeroDivisionError
       \<and> (\<exists>c1. loop_body P inp c0 = (Inl ZeroDivisionError, c1)
            \<and> while_loop P (pre @ inp # rest) (start c) = (LoopRaised ZeroDivisionError, c1)
            \<and> trace c1 = trace c0)
       \<and> (\<exists>tl. trace (state_of (run P (pre @ inp # rest) c))
              = trace c0 @ Print ''Error during camera streaming: float division by zero'' # tl)
       \<and> (release_fault P = None \<and> destroy_fault P = None \<longrightarrow>
            (\<exists>c'. run P (pre @ inp # rest) c = Returned c'
               \<and> trace c' = trace c0 @
                   [Print ''Error during camera streaming: float division by zero'',
                    CameraRelease, DestroyAllWindows, Print ''Scanner closed!'']))"
proof -
  from while_loop_append [OF assms(1), of "inp # rest"]
  have run0: "is_running c0"
    and app: "while_loop P (pre @ inp # rest) (start c) = while_loop P (inp # rest) c0"
    by simp_all
  have live0: "live_render c0 = live_render c"
    using loop_trace [OF assms(1)] by blast
  have d: "int_truediv_float 1 (float_sub (t_end inp) (t_start inp)) = Inl ZeroDivisionError"
    using assms(3) by (simp add: int_truediv_float_def float_of_int_one)
  then have fv: "fps_value inp = Inl ZeroDivisionError" by (simp add: fps_value_def)
  have sf: "\<exists>c1. show_frame P inp c0 = (Inl ZeroDivisionError, c1) \<and> trace c1 = trace c0"
  proof (cases "live_render c")
    case False
    with assms(2) d live0 show ?thesis
      by (cases fr)
        (simp_all add: show_frame_def then_do_def lift_def camera_read_def alloc_def)
  next
    case True
    with assms(4) obtain depth where "colormap_fn P fr = Inr depth" by blast
    with True assms(2) d live0 show ?thesis
      by (cases fr)
        (simp_all add: show_frame_def then_do_def lift_def camera_read_def alloc_def
          est_colormap_def deref_def)
  qed
  then obtain c1 where c1: "show_frame P inp c0 = (Inl ZeroDivisionError, c1)"
    "trace c1 = trace c0" by blast
  then have lb: "loop_body P inp c0 = (Inl ZeroDivisionError, c1)"
    by (simp add: loop_body_def then_do_def)
  with run0 have wl: "while_loop P (pre @ inp # rest) (start c) = (LoopRaised ZeroDivisionError, c1)"
    by (simp add: app)
  then have r: "run P (pre @ inp # rest) c
      = leave_try P None (c1\<lparr>trace := trace c0 @
          [Print ''Error during camera streaming: float division by zero'']\<rparr>)"
    using c1(2) by (simp add: run_def emit_def)
  have t: "\<exists>tl. trace (state_of (run P (pre @ inp # rest) c))
              = trace c0 @ Print ''Error during camera streaming: float division by zero'' # tl"
    unfolding r by (simp add: leave_try_eq state_of_def split: option.splits)
  have ret: "\<exists>c'. run P (pre @ inp # rest) c = Returned c'
               \<and> trace c' = trace c0 @
                   [Print ''Error during camera streaming: float division by zero'',
                    CameraRelease, DestroyAllWindows, Print ''Scanner closed!'']"
    if "release_fault P = None \<and> destroy_fault P = None"
    unfolding r using that by (simp add: leave_try_eq)
  from fv lb wl c1(2) t ret show ?thesis by blast
qed

lemma capture_effect:
  assumes "colormap_fn P (deref c frame) = Inr depth" and "capture_show_fault env = None"
  shows "\<exists>c'. capture P env frame c = (Inr (), c') \<and> same_config c c'
          \<and> trace c' = trace c @
               [CaptureCall (deref c frame),
                Print (''['' @ strftime_date (now_date env) @ '' | ''
                       @ strftime_time (now_time env) @ ''] Frame captured!''),
                Imshow (''Depth Scan - '' @ strftime_time (now_time env)) depth]"
  using assms
  by (simp add: capture_def then_do_def lift_def est_colormap_def alloc_def cv_imshow_def
      deref_def emit_def same_config_def split: ref.splits)

lemma two_digits_eq:
  assumes "n < 100"
  shows "two_digits n = [''0123456789'' ! (n div 10), ''0123456789'' ! (n mod 10)]"
proof (cases "n < 10")
  case True
  then show ?thesis by (simp add: two_digits_def str_nat.simps [of n])
next
  case False
  with assms have "n div 10 < 10" by simp
  with False show ?thesis
    by (simp add: two_digits_def str_nat.simps [of n] str_nat.simps [of "n div 10"])
qed

lemma digit_inj:
  assumes "i < 10" and "j < 10" and "''0123456789'' ! i = ''0123456789'' ! j"
  shows "i = j"
proof -
  have "distinct ''0123456789''" by simp
  moreover have "i < length ''0123456789''" "j < length ''0123456789''" using assms by simp_all
  ultimately show ?thesis using assms(3) by (simp only: nth_eq_iff_index_eq)
qed

lemma two_digits_inj:
  assumes "m < 100" and "n < 100" and "two_digits m = two_digits n"
  shows "m = n"
proof -
  from assms have "''0123456789'' ! (m div 10) = ''0123456789'' ! (n div 10)"
    and "''0123456789'' ! (m mod 10) = ''0123456789'' ! (n mod 10)"
    by (simp_all add: two_digits_eq)
  moreover have "m div 10 < 10" "n div 10 < 10" "m mod 10 < 10" "n mod 10 < 10"
    using assms by simp_all
  ultimately have "m div 10 = n div 10" "m mod 10 = n mod 10"
    by (auto intro: digit_inj)
  then show ?thesis by (metis div_mult_mod_eq)
qed

lemma strftime_time_eq_iff:
  assumes "hour d < 24" "minute d < 60" "second d < 60"
    and "hour d' < 24" "minute d' < 60" "second d' < 60"
  shows "strftime_time d = strftime_time d'
           \<longleftrightarrow> hour d = hour d' \<and> minute d = minute d' \<and> second d = second d'"
proof
  assume eq: "strftime_time d = strftime_time d'"
  have lt: "hour d < 100" "minute d < 100" "second d < 100"
    "hour d' < 100" "minute d' < 100" "second d' < 100" using assms by simp_all
  from eq have "two_digits (hour d) = two_digits (hour d')"
    "two_digits (minute d) = two_digits (minute d')"
    "two_digits (second d) = two_digits (second d')"
    by (simp_all add: strftime_time_def two_digits_eq lt)
  with lt show "hour d = hour d' \<and> minute d = minute d' \<and> second d = second d'"
    by (auto intro: two_digits_inj)
next
  assume "hour d = hour d' \<and> minute d = minute d' \<and> second d = second d'"
  then show "strftime_time d = strftime_time d'" by (simp add: strftime_time_def)
qed

text \<open>
  C9, as amended.  When the transform succeeds and the display accepts the window,
  \<open>capture\<close> applies the transform to the frame it is given, logs the date and time,
  shows the result in a window titled \<open>Depth Scan - HH:MM:SS\<close> and leaves the run
  state as it was; the titles of two invocations are equal exactly when their clock
  readings agree in hour, minute and second.
\<close>

theorem capture_window:
  assumes "colormap_fn P (deref c frame) = Inr depth" and "capture_show_fault env = None"
    and "hour (now_time env) < 24 \<and> minute (now_time env) < 60 \<and> second (now_time env) < 60"
    and "hour (now_time env') < 24 \<and> minute (now_time env') < 60 \<and> second (now_time env') < 60"
  shows "(\<exists>c'. capture P env frame c = (Inr (), c') \<and> is_running c' = is_running c
          \<and> trace c' = trace c @
               [CaptureCall (deref c frame),
                Print (''['' @ strftime_date (now_date env) @ '' | ''
                       @ strftime_time (now_time env) @ ''] Frame captured!''),
                Imshow (''Depth Scan - '' @ strftime_time (now_time env)) depth])
       \<and> ((''Depth Scan - '' @ strftime_time (now_time env)
             = ''Depth Scan - '' @ strftime_time (now_time env'))
            = (hour (now_time env) = hour (now_time env')
               \<and> minute (now_time env) = minute (now_time env')
               \<and> second (now_time env) = second (now_time env')))"
proof -
  from capture_effect [OF assms(1,2)] have
    "\<exists>c'. capture P env frame c = (Inr (), c') \<and> is_running c' = is_running c
          \<and> trace c' = trace c @
               [CaptureCall (deref c frame),
                Print (''['' @ strftime_date (now_date env) @ '' | ''
                       @ strftime_time (now_time env) @ ''] Frame captured!''),
                Imshow (''Depth Scan - '' @ strftime_time (now_time env)) depth]"
    by (auto simp: same_config_def)
  moreover have "(strftime_time (now_time env) = strftime_time (now_time env'))
            = (hour (now_time env) = hour (now_time env')
               \<and> minute (now_time env) = minute (now_time env')
               \<and> second (now_time env) = second (now_time env'))"
    using assms(3,4) by (intro strftime_time_eq_iff) simp_all
  ultimately show ?thesis by simp
qed

lemma capture_pass:
  assumes "\<not> live_render c" and "read_result inp = Inr (ret, Some raw)"
    and "fps_value inp = Inr fps" and "show_fault inp = None"
    and "putText_fn P raw (''FPS: '' @ str_int fps) (10, 30) 0 (fl (7 / 10)) (10, 255, 100) 2
           = Inr ann"
    and "round_mul (width ann) (priv_scale c) = Inr (int W)"
    and "round_mul (height ann) (priv_scale c) = Inr (int H)"
    and "0 < W" and "int W \<le> int_max" and "0 < H" and "int H \<le> int_max"
    and "inter_area P ann H W = Inr px"
    and "key_result inp = Inr 32"
    and "colormap_fn P (Some ann) = Inr depth" and "capture_show_fault (cap_env inp) = None"
  shows "\<exists>c'. loop_body P inp c = (Inr Continue, c') \<and> same_config c c'
          \<and> trace c' = trace c @
               [Imshow ''Standard Camera''
                  \<lparr>height = H, width = W, channels = channels ann, pixels = px\<rparr>,
                CaptureCall (Some ann),
                Print (''['' @ strftime_date (now_date (cap_env inp)) @ '' | ''
                       @ strftime_time (now_time (cap_env inp)) @ ''] Frame captured!''),
                Imshow (''Depth Scan - '' @ strftime_time (now_time (cap_env inp))) depth]"
proof -
  let ?shown = "\<lparr>height = H, width = W, channels = channels ann, pixels = px\<rparr>"
  let ?c1 = "c\<lparr>heap := (heap c)(next_addr c \<mapsto> ann, Suc (next_addr c) \<mapsto> ?shown),
        next_addr := Suc (Suc (next_addr c)),
        trace := trace c @ [Imshow ''Standard Camera'' ?shown]\<rparr>"
  have sf: "show_frame P inp c = (Inr (Ref (next_addr c)), ?c1)"
    by (rule show_frame_standard [OF assms(1-12)])
  have dr: "deref ?c1 (Ref (next_addr c)) = Some ann" by (simp add: deref_def)
  have nl: "\<not> live_render ?c1" using assms(1) by simp
  from capture_effect [of P ?c1 "Ref (next_addr c)" depth "cap_env inp"] dr assms(14,15)
  obtain c' where cap: "capture P (cap_env inp) (Ref (next_addr c)) ?c1 = (Inr (), c')"
    "same_config ?c1 c'"
    "trace c' = trace ?c1 @
               [CaptureCall (Some ann),
                Print (''['' @ strftime_date (now_date (cap_env inp)) @ '' | ''
                       @ strftime_time (now_time (cap_env inp)) @ ''] Frame captured!''),
                Imshow (''Depth Scan - '' @ strftime_time (now_time (cap_env inp))) depth]"
    by auto
  have "handle_key P inp (Ref (next_addr c)) ?c1 = (Inr Continue, c')"
    using handle_key_capture [OF assms(13) nl, of P "Ref (next_addr c)"] cap(1) by simp
  with sf have "loop_body P inp c = (Inr Continue, c')"
    by (simp add: loop_body_def then_do_def)
  moreover have "same_config c c'" using cap(2) by (simp add: same_config_def)
  ultimately show ?thesis using cap(3) by simp
qed

lemma upper_cpu: "upper ''cpu'' = ''CPU''"
  by (simp add: upper_def upper_char_def)

lemma mark_origin_shape:
  "height (mark_origin img org color) = height img"
  "width (mark_origin img org color) = width img"
  "channels (mark_origin img org color) = channels img"
  by (simp_all add: mark_origin_def)

lemma marked_differs: "mark_origin black_frame (10, 30) (10, 255, 100) \<noteq> black_frame"
proof
  assume "mark_origin black_frame (10, 30) (10, 255, 100) = black_frame"
  then have "pixels (mark_origin black_frame (10, 30) (10, 255, 100)) ! 57631
      = pixels black_frame ! 57631" by simp
  then show False
    by (simp add: mark_origin_def black_frame_fields black_pixels_def)
qed

lemma new_camera_fields:
  "\<not> live_render new_camera" "priv_scale new_camera = Finite 1" "device new_camera = ''cpu''"
  "trace new_camera = []" "next_addr new_camera = 0" "\<not> is_running new_camera"
  by (simp_all add: new_camera_def)

lemma start_fields:
  "live_render (start c) = live_render c" "priv_scale (start c) = priv_scale c"
  "is_running (start c)" "next_addr (start c) = next_addr c" "heap (start c) = heap c"
  "trace (start c) = trace c @ [Print (''['' @ upper (device c) @ ''] Running depth scan...'')]"
  by (simp_all add: start_def emit_def)

lemma sample_inter_area_small:
  assumes "h * w * channels src < 2 ^ 31"
  shows "sample_inter_area src h w = Inr (sample_pixels src h w)"
  using assms by (simp add: sample_inter_area_def)

lemma round_mul_sample:
  "round_mul 640 (Finite 1) = Inr 640" "round_mul 480 (Finite 1) = Inr 480"
  using round_mul_one [of 640] round_mul_one [of 480] by simp_all

text \<open>
  One pass of the sample input on an object that does not render live, at scale 1: the
  first block, and the whole pass for a key that is neither a quit key nor the spacebar.
\<close>

lemma sample_show_frame:
  assumes "\<not> live_render c" and "priv_scale c = Finite 1"
  shows "show_frame sample_platform (frame_input k) c =
     (Inr (Ref (next_addr c)),
      c\<lparr>heap := (heap c)(next_addr c \<mapsto> mark_origin black_frame (10, 30) (10, 255, 100),
           Suc (next_addr c) \<mapsto>
             \<lparr>height = 480, width = 640, channels = 3,
              pixels = sample_pixels (mark_origin black_frame (10, 30) (10, 255, 100)) 480 640\<rparr>),
        next_addr := Suc (Suc (next_addr c)),
        trace := trace c @ [Imshow ''Standard Camera''
          \<lparr>height = 480, width = 640, channels = 3,
           pixels = sample_pixels (mark_origin black_frame (10, 30) (10, 255, 100)) 480 640\<rparr>]\<rparr>)"
proof -
  let ?ann = "mark_origin black_frame (10, 30) (10, 255, 100)"
  have ia: "inter_area sample_platform ?ann 480 640 = Inr (sample_pixels ?ann 480 640)"
    by (simp add: sample_platform_fields sample_inter_area_small mark_origin_shape
        black_frame_fields)
  have "show_frame sample_platform (frame_input k) c =
     (Inr (Ref (next_addr c)),
      c\<lparr>heap := (heap c)(next_addr c \<mapsto> ?ann,
           Suc (next_addr c) \<mapsto>
             \<lparr>height = 480, width = 640, channels = channels ?ann,
              pixels = sample_pixels ?ann 480 640\<rparr>),
        next_addr := Suc (Suc (next_addr c)),
        trace := trace c @ [Imshow ''Standard Camera''
          \<lparr>height = 480, width = 640, channels = channels ?ann,
           pixels = sample_pixels ?ann 480 640\<rparr>]\<rparr>)"
    by (rule show_frame_standard [where ret = True and raw = black_frame and fps = 32])
      (simp_all add: assms frame_input_fields fps_value_sample sample_platform_fields
        sample_putText_def mark_origin_shape black_frame_fields round_mul_sample int_max_def
        ia [simplified sample_platform_fields])
  then show ?thesis by (simp add: mark_origin_shape black_frame_fields)
qed

lemma sample_pass:
  assumes "\<not> live_render c" and "priv_scale c = Finite 1"
    and "k \<noteq> 27" and "k \<noteq> 113" and "k \<noteq> 32"
  shows "loop_body sample_platform (frame_input k) c =
     (Inr Continue,
      c\<lparr>heap := (heap c)(next_addr c \<mapsto> mark_origin black_frame (10, 30) (10, 255, 100),
           Suc (next_addr c) \<mapsto>
             \<lparr>height = 480, width = 640, channels = 3,
              pixels = sample_pixels (mark_origin black_frame (10, 30) (10, 255, 100)) 480 640\<rparr>),
        next_addr := Suc (Suc (next_addr c)),
        trace := trace c @ [Imshow ''Standard Camera''
          \<lparr>height = 480, width = 640, channels = 3,
           pixels = sample_pixels (mark_origin black_frame (10, 30) (10, 255, 100)) 480 640\<rparr>]\<rparr>)"
proof -
  have "handle_key sample_platform (frame_input k) frame c1 = (Inr Continue, c1)"
    for frame and c1 :: DepthCamera
    by (rule handle_key_other [where k = k]) (simp_all add: frame_input_fields assms)
  with sample_show_frame [OF assms(1,2), of k] show ?thesis
    by (simp add: loop_body_def then_do_def)
qed

text \<open>A pass on the sample platform whose read delivers no frame, with live render off.\<close>

lemma sample_no_frame:
  assumes "\<not> live_render c"
  shows "show_frame sample_platform ((frame_input k)\<lparr>read_result := Inr (False, None)\<rparr>) c
           = (Inl (PlatformError ''putText: img is not a numpy array''), c)"
proof -
  have "fl 32 = Finite 32" using fl_of_nat [of 32] by simp
  then show ?thesis
    using assms
    by (simp add: show_frame_def then_do_def lift_def camera_read_def cv_putText_def
        frame_input_fields int_truediv_float_def float_of_int_one fl_one_32nd
        round_half_even_numeral)
qed

section \<open>The scale properties\<close>

text \<open>
  C10.  The class body binds two properties.  Reading \<open>scale\<close> gives the current factor;
  assigning to \<open>scale\<close> raises \<open>AttributeError\<close>, as that property has no setter;
  assigning to \<open>set_scale\<close> stores the value; reading \<open>set_scale\<close> gives the current
  factor, a float, so calling \<open>set_scale(v)\<close> raises \<open>TypeError\<close>; and \<open>set_scale\<close> is
  the only property an assignment to which succeeds.
\<close>

theorem scale_properties:
  "getattr self ''scale'' = Some (Inr (PyFloat (priv_scale self)))
   \<and> setattr self ''scale'' v = Some (Inl (AttributeError ''property has no setter''))
   \<and> setattr self ''set_scale'' v = Some (Inr (self\<lparr>priv_scale := v\<rparr>))
   \<and> getattr self ''set_scale'' = Some (Inr (PyFloat (priv_scale self)))
   \<and> call_attr self ''set_scale'' [v] = Some (Inl (TypeError ''float object is not callable''))
   \<and> [name \<leftarrow> map fst class_properties. \<exists>c. setattr self name v = Some (Inr c)]
       = [''set_scale'']"
  by (simp add: getattr_def setattr_def call_attr_def class_properties_eq property_get_def
      property_set_def py_call_def scale_def set_scale_def)

section \<open>\<open>__resize\<close>\<close>

text \<open>
  C4, as amended.  For an image of dimensions \<open>(h, w)\<close> in a well-formed store and any
  factor, with \<open>round(w * factor)\<close> and \<open>round(h * factor)\<close> computed as Python
  does (the product rounded to a double, then to an integer): when both lie between 1
  and \<open>int_max\<close> and the resampling succeeds, \<open>resize\<close> returns a new array of
  these dimensions; whenever \<open>resize\<close> returns, its result has these dimensions and
  they lie in that range; when one of them is not positive or exceeds \<open>int_max\<close>,
  \<open>cv2.resize\<close> raises and the object is unchanged; with factor 1.0 the result has
  dimensions \<open>(h, w)\<close>; and in every case the input array, like every other array of
  the store, is as it was.
\<close>

theorem resize_dimensions:
  assumes "heap_ok c" and "deref c r = Some src"
  shows "(\<forall>W H px. round_mul (width src) factor = Inr (int W)
            \<and> round_mul (height src) factor = Inr (int H)
            \<and> 0 < W \<and> int W \<le> int_max \<and> 0 < H \<and> int H \<le> int_max
            \<and> inter_area P src H W = Inr px
          \<longrightarrow> (\<exists>a c'. resize P r factor c = (Inr a, c') \<and> a \<noteq> r
                 \<and> deref c' a = Some \<lparr>height = H, width = W, channels = channels src, pixels = px\<rparr>))
       \<and> (\<forall>a c'. resize P r factor c = (Inr a, c')
          \<longrightarrow> (\<exists>out. deref c' a = Some out
                 \<and> round_mul (height src) factor = Inr (int (height out))
                 \<and> round_mul (width src) factor = Inr (int (width out))
                 \<and> 0 < height out \<and> int (height out) \<le> int_max
                 \<and> 0 < width out \<and> int (width out) \<le> int_max))
       \<and> (\<forall>w h. round_mul (width src) factor = Inr w \<and> round_mul (height src) factor = Inr h
            \<and> (w \<le> 0 \<or> h \<le> 0 \<or> int_max < w \<or> int_max < h)
          \<longrightarrow> (\<exists>e. resize P r factor c = (Inl e, c)))
       \<and> (\<forall>px. 0 < height src \<and> int (height src) \<le> int_max
            \<and> 0 < width src \<and> int (width src) \<le> int_max
            \<and> inter_area P src (height src) (width src) = Inr px
          \<longrightarrow> (\<exists>a c'. resize P r (Finite 1) c = (Inr a, c') \<and> a \<noteq> r
                 \<and> deref c' a = Some \<lparr>height = height src, width = width src,
                                       channels = channels src, pixels = px\<rparr>))
       \<and> deref (snd (resize P r factor c)) r = Some src
       \<and> (\<forall>b. b \<noteq> next_addr c \<longrightarrow> heap (snd (resize P r factor c)) b = heap c b)"
proof -
  from assms(2) obtain b where r: "r = Ref b" and hb: "heap c b = Some src"
    by (cases r) (auto simp: deref_def)
  from assms(1) hb have fresh: "b \<noteq> next_addr c"
    by (auto simp: heap_ok_def)
  have part1: "\<exists>a c'. resize P r f c = (Inr a, c') \<and> a \<noteq> r
                 \<and> deref c' a = Some \<lparr>height = H, width = W, channels = channels src, pixels = px\<rparr>"
    if "round_mul (width src) f = Inr (int W)" "round_mul (height src) f = Inr (int H)"
      "0 < W" "int W \<le> int_max" "0 < H" "int H \<le> int_max" "inter_area P src H W = Inr px"
    for f W H px
  proof -
    have hpos: "height src \<noteq> 0"
      using that(2,5) by (cases "height src = 0") (auto dest: round_mul_zero)
    have wpos: "width src \<noteq> 0"
      using that(1,3) by (cases "width src = 0") (auto dest: round_mul_zero)
    have im: "\<not> int_max < int W" "\<not> int_max < int H" "\<not> int W < - int_max - 1"
      "\<not> int H < - int_max - 1"
      using that(4,6) by (simp_all add: int_max_def)
    show ?thesis
      using that(1,2,3,5,7) hpos wpos im fresh hb
      by (simp add: resize_def then_do_def lift_def cv_resize_def alloc_def deref_def r)
  qed
  have part2: "\<exists>out. deref c' a = Some out
                 \<and> round_mul (height src) factor = Inr (int (height out))
                 \<and> round_mul (width src) factor = Inr (int (width out))
                 \<and> 0 < height out \<and> int (height out) \<le> int_max
                 \<and> 0 < width out \<and> int (width out) \<le> int_max"
    if "resize P r factor c = (Inr a, c')" for a c'
    using that hb
    by (auto simp: resize_def then_do_def lift_def cv_resize_def alloc_def deref_def r
        split: sum.splits if_splits)
  have part3: "\<exists>e. resize P r factor c = (Inl e, c)"
    if "round_mul (width src) factor = Inr w" "round_mul (height src) factor = Inr h"
      "w \<le> 0 \<or> h \<le> 0 \<or> int_max < w \<or> int_max < h" for w h
    using that hb
    by (auto simp: resize_def then_do_def lift_def cv_resize_def deref_def r)
  have part4: "\<exists>a c'. resize P r (Finite 1) c = (Inr a, c') \<and> a \<noteq> r
                 \<and> deref c' a = Some \<lparr>height = height src, width = width src,
                                       channels = channels src, pixels = px\<rparr>"
    if "0 < height src \<and> int (height src) \<le> int_max \<and> 0 < width src
        \<and> int (width src) \<le> int_max \<and> inter_area P src (height src) (width src) = Inr px"
    for px
  proof -
    from that have "height src < 2 ^ 53" "width src < 2 ^ 53" by (simp_all add: int_max_def)
    then have "round_mul (width src) (Finite 1) = Inr (int (width src))"
      "round_mul (height src) (Finite 1) = Inr (int (height src))"
      by (simp_all add: round_mul_one)
    with that show ?thesis by (intro part1) simp_all
  qed
  have part5: "deref (snd (resize P r factor c)) r = Some src"
    using hb fresh
    by (auto simp: resize_def then_do_def lift_def cv_resize_def alloc_def deref_def r
        split: sum.splits)
  have part6: "heap (snd (resize P r factor c)) b' = heap c b'" if "b' \<noteq> next_addr c" for b'
    using hb that
    by (auto simp: resize_def then_do_def lift_def cv_resize_def alloc_def deref_def r
        split: sum.splits)
  from part1 [of factor] part2 part3 part4 part5 part6 show ?thesis by blast
qed

lemma sample_resample:
  "inter_area sample_platform black_frame 240 320 = Inr (sample_pixels black_frame 240 320)"
  "inter_area sample_platform black_frame 480 640 = Inr (sample_pixels black_frame 480 640)"
  by (simp_all add: sample_platform_fields sample_inter_area_small black_frame_fields)

text \<open>C4 on a 480 by 640 frame, at the factors 0.5, 1.0 and 0.001.\<close>

theorem resize_dimensions_witness:
  "heap_ok loaded_camera \<and> deref loaded_camera (Ref 0) = Some black_frame
   \<and> (\<exists>a c'. resize sample_platform (Ref 0) (Finite (1 / 2)) loaded_camera = (Inr a, c')
          \<and> a \<noteq> Ref 0
          \<and> deref c' a = Some \<lparr>height = 240, width = 320, channels = 3,
                                pixels = sample_pixels black_frame 240 320\<rparr>)
   \<and> (\<exists>a c'. resize sample_platform (Ref 0) (Finite 1) loaded_camera = (Inr a, c')
          \<and> a \<noteq> Ref 0
          \<and> deref c' a = Some \<lparr>height = 480, width = 640, channels = 3,
                                pixels = sample_pixels black_frame 480 640\<rparr>)
   \<and> (\<exists>e. resize sample_platform (Ref 0) (Finite (1152921504606847 / 1152921504606846976))
             loaded_camera = (Inl e, loaded_camera))
   \<and> deref (snd (resize sample_platform (Ref 0) (Finite (1 / 2)) loaded_camera)) (Ref 0)
       = Some black_frame"
proof -
  note half = resize_dimensions [OF loaded_camera_facts, of "Finite (1 / 2)" sample_platform]
  note small = resize_dimensions [OF loaded_camera_facts,
      of "Finite (1152921504606847 / 1152921504606846976)" sample_platform]
  have a: "\<exists>a c'. resize sample_platform (Ref 0) (Finite (1 / 2)) loaded_camera = (Inr a, c')
          \<and> a \<noteq> Ref 0
          \<and> deref c' a = Some \<lparr>height = 240, width = 320, channels = 3,
                                pixels = sample_pixels black_frame 240 320\<rparr>"
  proof -
    from half have "round_mul (width black_frame) (Finite (1 / 2)) = Inr (int 320)
            \<and> round_mul (height black_frame) (Finite (1 / 2)) = Inr (int 240)
            \<and> 0 < (320::nat) \<and> int 320 \<le> int_max \<and> 0 < (240::nat) \<and> int 240 \<le> int_max
            \<and> inter_area sample_platform black_frame 240 320
                = Inr (sample_pixels black_frame 240 320)
          \<longrightarrow> (\<exists>a c'. resize sample_platform (Ref 0) (Finite (1 / 2)) loaded_camera = (Inr a, c')
                 \<and> a \<noteq> Ref 0
                 \<and> deref c' a = Some \<lparr>height = 240, width = 320, channels = channels black_frame,
                                       pixels = sample_pixels black_frame 240 320\<rparr>)"
      by blast
    then show ?thesis
      by (simp add: black_frame_fields round_mul_half int_max_def sample_resample)
  qed
  have b: "\<exists>a c'. resize sample_platform (Ref 0) (Finite 1) loaded_camera = (Inr a, c')
          \<and> a \<noteq> Ref 0
          \<and> deref c' a = Some \<lparr>height = 480, width = 640, channels = 3,
                                pixels = sample_pixels black_frame 480 640\<rparr>"
  proof -
    from half have "0 < height black_frame \<and> int (height black_frame) \<le> int_max
            \<and> 0 < width black_frame \<and> int (width black_frame) \<le> int_max
            \<and> inter_area sample_platform black_frame (height black_frame) (width black_frame)
                = Inr (sample_pixels black_frame 480 640)
          \<longrightarrow> (\<exists>a c'. resize sample_platform (Ref 0) (Finite 1) loaded_camera = (Inr a, c')
                 \<and> a \<noteq> Ref 0
                 \<and> deref c' a = Some \<lparr>height = height black_frame, width = width black_frame,
                                       channels = channels black_frame,
                                       pixels = sample_pixels black_frame 480 640\<rparr>)"
      by blast
    then show ?thesis
      by (simp add: black_frame_fields int_max_def sample_resample)
  qed
  have c: "\<exists>e. resize sample_platform (Ref 0) (Finite (1152921504606847 / 1152921504606846976))
             loaded_camera = (Inl e, loaded_camera)"
  proof -
    from small have "round_mul (width black_frame)
               (Finite (1152921504606847 / 1152921504606846976)) = Inr 1
            \<and> round_mul (height black_frame)
               (Finite (1152921504606847 / 1152921504606846976)) = Inr 0
            \<and> ((1::int) \<le> 0 \<or> (0::int) \<le> 0 \<or> int_max < 1 \<or> int_max < 0)
          \<longrightarrow> (\<exists>e. resize sample_platform (Ref 0)
                      (Finite (1152921504606847 / 1152921504606846976)) loaded_camera
                    = (Inl e, loaded_camera))"
      by blast
    then show ?thesis by (simp add: black_frame_fields round_mul_thousandth)
  qed
  from half have d: "deref (snd (resize sample_platform (Ref 0) (Finite (1 / 2)) loaded_camera))
      (Ref 0) = Some black_frame" by blast
  from a b c d loaded_camera_facts show ?thesis by blast
qed

text \<open>
  C4 as stated fails: the factor 0.001 is positive, and on a 480 by 640 frame the
  target size is \<open>(1, 0)\<close>, which \<open>cv2.resize\<close> refuses; no image is returned.
\<close>

theorem resize_small_factor_raises:
  "fl (1 / 1000) = Finite (1152921504606847 / 1152921504606846976)
   \<and> (0::rat) < 1152921504606847 / 1152921504606846976
   \<and> round_mul (width black_frame) (Finite (1152921504606847 / 1152921504606846976)) = Inr 1
   \<and> round_mul (height black_frame) (Finite (1152921504606847 / 1152921504606846976)) = Inr 0
   \<and> resize sample_platform (Ref 0) (Finite (1152921504606847 / 1152921504606846976))
       loaded_camera
     = (Inl (PlatformError ''resize: assertion failed''), loaded_camera)"
  by (simp add: resize_def then_do_def lift_def cv_resize_def loaded_camera_facts
      black_frame_fields round_mul_thousandth fl_thousandth int_max_def)

section \<open>Runs on the sample platform\<close>

lemma sample_quit_run:
  "\<exists>c'. run sample_platform [frame_input 27] new_camera = Returned c' \<and> \<not> is_running c'"
proof -
  let ?c = "start new_camera"
  from sample_show_frame [of ?c 27] obtain c1 where
    c1: "show_frame sample_platform (frame_input 27) ?c = (Inr (Ref 0), c1)"
    by (simp add: start_fields new_camera_fields)
  have "loop_body sample_platform (frame_input 27) ?c
      = (Inr Break, c1\<lparr>is_running := False, trace := trace c1 @ [Print ''Closing scanner...'']\<rparr>)"
    using c1 handle_key_quit [OF frame_input_fields(5), of 27 sample_platform "Ref 0" c1]
    by (simp add: loop_body_def then_do_def)
  then show ?thesis
    by (simp add: run_def start_fields leave_try_eq sample_platform_fields)
qed

lemma failed_read_run:
  "\<exists>c'. run sample_platform
           [(frame_input k)\<lparr>read_result := Inl (PlatformError ''read failed'')\<rparr>] new_camera
         = Returned c' \<and> is_running c'
       \<and> trace c' = [Print ''[CPU] Running depth scan...'',
                     Print ''Error during camera streaming: read failed'',
                     CameraRelease, DestroyAllWindows, Print ''Scanner closed!'']"
  by (simp add: run_def loop_body_def show_frame_def then_do_def lift_def camera_read_def
      start_fields new_camera_fields leave_try_eq sample_platform_fields emit_def upper_cpu)

lemma no_frame_run:
  "\<exists>c'. run sample_platform [(frame_input k)\<lparr>read_result := Inr (False, None)\<rparr>] new_camera
         = Returned c' \<and> is_running c'
       \<and> trace c' = [Print ''[CPU] Running depth scan...'',
                     Print ''Error during camera streaming: putText: img is not a numpy array'',
                     CameraRelease, DestroyAllWindows, Print ''Scanner closed!'']"
proof -
  have "show_frame sample_platform ((frame_input k)\<lparr>read_result := Inr (False, None)\<rparr>)
      (start new_camera)
    = (Inl (PlatformError ''putText: img is not a numpy array''), start new_camera)"
    by (rule sample_no_frame) (simp add: start_fields new_camera_fields)
  then show ?thesis
    by (simp add: run_def loop_body_def then_do_def start_fields new_camera_fields
        leave_try_eq sample_platform_fields emit_def upper_cpu)
qed

text \<open>A run interrupted during the read, and a run on a platform that cannot close its windows.\<close>

lemma interrupted_run:
  "\<exists>c'. run sample_platform [(frame_input k)\<lparr>read_result := Inl KeyboardInterrupt\<rparr>] new_camera
         = Raised KeyboardInterrupt c'
       \<and> trace c' = [Print ''[CPU] Running depth scan...'', CameraRelease, DestroyAllWindows]"
  by (simp add: run_def loop_body_def show_frame_def then_do_def lift_def camera_read_def
      start_fields new_camera_fields leave_try_eq sample_platform_fields emit_def upper_cpu)

lemma no_display_run:
  "\<exists>c'. run (sample_platform\<lparr>destroy_fault := Some (PlatformError ''no display'')\<rparr>)
           [(frame_input k)\<lparr>read_result := Inl (PlatformError ''read failed'')\<rparr>] new_camera
         = Raised (PlatformError ''no display'') c'
       \<and> trace c' = [Print ''[CPU] Running depth scan...'',
                     Print ''Error during camera streaming: read failed'', CameraRelease]"
  by (simp add: run_def loop_body_def show_frame_def then_do_def lift_def camera_read_def
      start_fields new_camera_fields leave_try_eq sample_platform_fields emit_def upper_cpu)

text \<open>
  C2 on four runs: one ended by the quit key, one by a read that raises, one by an
  interrupt during the read, and one whose windows cannot be closed.
\<close>

theorem run_teardown_once_witness:
  "(\<exists>c'. run sample_platform [frame_input 27] new_camera = Returned c'
      \<and> (\<exists>evs. trace c' = trace new_camera @ evs
                  @ [CameraRelease, DestroyAllWindows, Print ''Scanner closed!'']
            \<and> count_list (evs @ [CameraRelease, DestroyAllWindows, Print ''Scanner closed!''])
                CameraRelease = 1
            \<and> count_list (evs @ [CameraRelease, DestroyAllWindows, Print ''Scanner closed!''])
                DestroyAllWindows = 1))
   \<and> (\<exists>c'. run sample_platform
             [(frame_input 0)\<lparr>read_result := Inl (PlatformError ''read failed'')\<rparr>] new_camera
           = Returned c'
      \<and> (\<exists>evs. trace c' = trace new_camera @ evs
                  @ [CameraRelease, DestroyAllWindows, Print ''Scanner closed!'']
            \<and> count_list (evs @ [CameraRelease, DestroyAllWindows, Print ''Scanner closed!''])
                CameraRelease = 1
            \<and> count_list (evs @ [CameraRelease, DestroyAllWindows, Print ''Scanner closed!''])
                DestroyAllWindows = 1))
   \<and> (\<exists>c'. run sample_platform [(frame_input 0)\<lparr>read_result := Inl KeyboardInterrupt\<rparr>]
             new_camera = Raised KeyboardInterrupt c'
      \<and> \<not> is_Exception KeyboardInterrupt
      \<and> (\<exists>evs. trace c' = trace new_camera @ evs @ [CameraRelease, DestroyAllWindows]
            \<and> list_all (\<lambda>x. \<not> is_teardown x \<and> x \<noteq> Print ''Scanner closed!'') evs))
   \<and> (\<exists>c'. run (sample_platform\<lparr>destroy_fault := Some (PlatformError ''no display'')\<rparr>)
             [(frame_input 0)\<lparr>read_result := Inl (PlatformError ''read failed'')\<rparr>] new_camera
           = Raised (PlatformError ''no display'') c'
      \<and> (\<exists>evs. trace c' = trace new_camera @ evs @ [CameraRelease]
            \<and> list_all (\<lambda>x. \<not> is_teardown x \<and> x \<noteq> Print ''Scanner closed!'') evs))"
proof -
  from sample_quit_run obtain c1 where
    r1: "run sample_platform [frame_input 27] new_camera = Returned c1" by blast
  from failed_read_run [of 0] obtain c2 where
    r2: "run sample_platform
           [(frame_input 0)\<lparr>read_result := Inl (PlatformError ''read failed'')\<rparr>] new_camera
         = Returned c2" by blast
  from interrupted_run [of 0] obtain c3 where
    r3: "run sample_platform [(frame_input 0)\<lparr>read_result := Inl KeyboardInterrupt\<rparr>] new_camera
         = Raised KeyboardInterrupt c3" by blast
  from no_display_run [of 0] obtain c4 where
    r4: "run (sample_platform\<lparr>destroy_fault := Some (PlatformError ''no display'')\<rparr>)
           [(frame_input 0)\<lparr>read_result := Inl (PlatformError ''read failed'')\<rparr>] new_camera
         = Raised (PlatformError ''no display'') c4" by blast
  note w1 = run_teardown_once [of sample_platform "[frame_input 27]" new_camera]
  note w2 = run_teardown_once [of sample_platform
      "[(frame_input 0)\<lparr>read_result := Inl (PlatformError ''read failed'')\<rparr>]" new_camera]
  note w3 = run_teardown_once [of sample_platform
      "[(frame_input 0)\<lparr>read_result := Inl KeyboardInterrupt\<rparr>]" new_camera]
  note w4 = run_teardown_once [of "sample_platform\<lparr>destroy_fault := Some (PlatformError ''no display'')\<rparr>"
      "[(frame_input 0)\<lparr>read_result := Inl (PlatformError ''read failed'')\<rparr>]" new_camera]
  from w1 r1 have a: "\<exists>evs. trace c1 = trace new_camera @ evs
                  @ [CameraRelease, DestroyAllWindows, Print ''Scanner closed!'']
            \<and> count_list (evs @ [CameraRelease, DestroyAllWindows, Print ''Scanner closed!''])
                CameraRelease = 1
            \<and> count_list (evs @ [CameraRelease, DestroyAllWindows, Print ''Scanner closed!''])
                DestroyAllWindows = 1" by blast
  from w2 r2 have b: "\<exists>evs. trace c2 = trace new_camera @ evs
                  @ [CameraRelease, DestroyAllWindows, Print ''Scanner closed!'']
            \<and> count_list (evs @ [CameraRelease, DestroyAllWindows, Print ''Scanner closed!''])
                CameraRelease = 1
            \<and> count_list (evs @ [CameraRelease, DestroyAllWindows, Print ''Scanner closed!''])
                DestroyAllWindows = 1" by blast
  from w3 r3 have "\<exists>evs tl. trace c3 = trace new_camera @ evs @ tl
          \<and> list_all (\<lambda>x. \<not> is_teardown x \<and> x \<noteq> Print ''Scanner closed!'') evs
          \<and> (release_fault sample_platform = Some KeyboardInterrupt \<and> tl = []
               \<or> release_fault sample_platform = None
                   \<and> destroy_fault sample_platform = Some KeyboardInterrupt \<and> tl = [CameraRelease]
               \<or> release_fault sample_platform = None \<and> destroy_fault sample_platform = None
                   \<and> \<not> is_Exception KeyboardInterrupt \<and> tl = [CameraRelease, DestroyAllWindows])"
    by blast
  then have c: "\<exists>evs. trace c3 = trace new_camera @ evs @ [CameraRelease, DestroyAllWindows]
            \<and> list_all (\<lambda>x. \<not> is_teardown x \<and> x \<noteq> Print ''Scanner closed!'') evs"
    by (auto simp: sample_platform_fields)
  from w4 r4 have "\<exists>evs tl. trace c4 = trace new_camera @ evs @ tl
          \<and> list_all (\<lambda>x. \<not> is_teardown x \<and> x \<noteq> Print ''Scanner closed!'') evs
          \<and> (release_fault (sample_platform\<lparr>destroy_fault := Some (PlatformError ''no display'')\<rparr>)
                 = Some (PlatformError ''no display'') \<and> tl = []
               \<or> release_fault (sample_platform\<lparr>destroy_fault := Some (PlatformError ''no display'')\<rparr>) = None
                   \<and> destroy_fault (sample_platform\<lparr>destroy_fault := Some (PlatformError ''no display'')\<rparr>)
                       = Some (PlatformError ''no display'') \<and> tl = [CameraRelease]
               \<or> release_fault (sample_platform\<lparr>destroy_fault := Some (PlatformError ''no display'')\<rparr>) = None
                   \<and> destroy_fault (sample_platform\<lparr>destroy_fault := Some (PlatformError ''no display'')\<rparr>) = None
                   \<and> \<not> is_Exception (PlatformError ''no display'')
                   \<and> tl = [CameraRelease, DestroyAllWindows])"
    by blast
  then have d: "\<exists>evs. trace c4 = trace new_camera @ evs @ [CameraRelease]
            \<and> list_all (\<lambda>x. \<not> is_teardown x \<and> x \<noteq> Print ''Scanner closed!'') evs"
    by (auto simp: sample_platform_fields)
  from r1 a r2 b r3 c r4 d show ?thesis by auto
qed

text \<open>
  C2 as stated fails: when the read is interrupted (Ctrl-C), the camera is released and
  the windows are closed, but the exception leaves \<open>run\<close> and \<open>Scanner closed!\<close> is
  not printed.
\<close>

theorem interrupt_skips_notice:
  "read_result ((frame_input 0)\<lparr>read_result := Inl KeyboardInterrupt\<rparr>) = Inl KeyboardInterrupt
   \<and> (\<exists>c'. run sample_platform [(frame_input 0)\<lparr>read_result := Inl KeyboardInterrupt\<rparr>]
             new_camera = Raised KeyboardInterrupt c'
         \<and> trace c' = [Print ''[CPU] Running depth scan...'', CameraRelease, DestroyAllWindows]
         \<and> Print ''Scanner closed!'' \<notin> set (trace c'))"
  using interrupted_run [of 0] by auto

lemma window_titles_append: "window_titles (xs @ ys) = window_titles xs @ window_titles ys"
  by (induction xs rule: window_titles.induct) simp_all

lemma capture_args_append: "capture_args (xs @ ys) = capture_args xs @ capture_args ys"
  by (induction xs rule: capture_args.induct) simp_all

lemma live_camera_fields:
  "live_render live_camera" "priv_scale live_camera = Finite 1" "device live_camera = ''cpu''"
  "trace live_camera = []" "next_addr live_camera = 0"
  by (simp_all add: live_camera_def new_camera_def)

text \<open>
  A pass in live-render mode on the sample platform: the frame is shown in the
  \<open>Depth Capture\<close> window and any key other than a quit key leaves the loop going.
\<close>

lemma sample_live_pass:
  assumes "live_render c" and "priv_scale c = Finite 1" and "k \<noteq> 27" and "k \<noteq> 113"
  shows "\<exists>c'. loop_body sample_platform (frame_input k) c = (Inr Continue, c')
           \<and> same_config c c' \<and> trace c' = trace c @ [Imshow ''Depth Capture''
                \<lparr>height = 480, width = 640, channels = 3,
                 pixels = sample_pixels (mark_origin
                   (black_frame\<lparr>pixels := map (\<lambda>v. 255 - v) (pixels black_frame)\<rparr>)
                   (10, 30) (10, 255, 100)) 480 640\<rparr>]"
proof -
  let ?depth = "black_frame\<lparr>pixels := map (\<lambda>v. 255 - v) (pixels black_frame)\<rparr>"
  let ?ann = "mark_origin ?depth (10, 30) (10, 255, 100)"
  let ?shown = "\<lparr>height = 480, width = 640, channels = channels ?ann,
                 pixels = sample_pixels ?ann 480 640\<rparr>"
  let ?c1 = "c\<lparr>heap := (heap c)(next_addr c \<mapsto> black_frame, Suc (next_addr c) \<mapsto> ?ann,
                          Suc (Suc (next_addr c)) \<mapsto> ?shown),
        next_addr := Suc (Suc (Suc (next_addr c))),
        trace := trace c @ [Imshow ''Depth Capture'' ?shown]\<rparr>"
  have sf: "show_frame sample_platform (frame_input k) c = (Inr (Ref (next_addr c)), ?c1)"
    by (rule show_frame_live [where ret = True and raw = black_frame and depth = ?depth
          and fps = 32])
      (simp_all add: assms frame_input_fields fps_value_sample sample_platform_fields
        sample_colormap_def sample_putText_def mark_origin_shape black_frame_fields
        round_mul_sample int_max_def sample_inter_area_small)
  have hk: "handle_key sample_platform (frame_input k) (Ref (next_addr c)) ?c1 = (Inr Continue, ?c1)"
    by (rule handle_key_other [where k = k]) (simp_all add: assms frame_input_fields)
  from sf hk have "loop_body sample_platform (frame_input k) c = (Inr Continue, ?c1)"
    by (simp add: loop_body_def then_do_def)
  moreover have "same_config c ?c1" by (simp add: same_config_def)
  ultimately show ?thesis by (simp add: mark_origin_shape black_frame_fields)
qed

lemma sample_live_run:
  "\<exists>c'. run sample_platform [frame_input 32, frame_input 32] live_camera = StillRunning c'
     \<and> window_titles (trace c') = [''Depth Capture'', ''Depth Capture'']"
proof -
  let ?c = "start live_camera"
  have l0: "live_render ?c" "priv_scale ?c = Finite 1" "is_running ?c"
    "window_titles (trace ?c) = []"
    by (simp_all add: start_fields live_camera_fields)
  from sample_live_pass [OF l0(1,2), of 32] obtain c1 where
    p1: "loop_body sample_platform (frame_input 32) ?c = (Inr Continue, c1)"
    and s1: "same_config ?c c1"
    and t1: "window_titles (trace c1) = window_titles (trace ?c) @ [''Depth Capture'']"
    by (auto simp: window_titles_append)
  from s1 l0 have l1: "live_render c1" "priv_scale c1 = Finite 1" "is_running c1"
    by (simp_all add: same_config_def)
  from sample_live_pass [OF l1(1,2), of 32] obtain c2 where
    p2: "loop_body sample_platform (frame_input 32) c1 = (Inr Continue, c2)"
    and s2: "same_config c1 c2"
    and t2: "window_titles (trace c2) = window_titles (trace c1) @ [''Depth Capture'']"
    by (auto simp: window_titles_append)
  from s2 l1 have l2: "is_running c2" by (simp add: same_config_def)
  from p1 p2 l0(3) l1(3) l2
  have "while_loop sample_platform [frame_input 32, frame_input 32] ?c = (ScriptEnded, c2)"
    by simp
  then have "run sample_platform [frame_input 32, frame_input 32] live_camera = StillRunning c2"
    by (simp add: run_def)
  with t1 t2 l0(4) show ?thesis by simp
qed

text \<open>
  C5 on a live-render run that polls the spacebar twice: both passes show their frame
  and reach the key poll, and no capture is entered.
\<close>

theorem live_render_never_captures_witness:
  "live_render live_camera \<and> key_result (frame_input 32) = Inr 32
   \<and> window_titles (trace (state_of
        (run sample_platform [frame_input 32, frame_input 32] live_camera)))
       = [''Depth Capture'', ''Depth Capture'']
   \<and> (\<exists>evs. trace (state_of (run sample_platform [frame_input 32, frame_input 32] live_camera))
               = trace live_camera @ evs
            \<and> list_all (\<lambda>e. \<not> is_capture_call e) evs)"
proof -
  from sample_live_run obtain c' where
    r: "run sample_platform [frame_input 32, frame_input 32] live_camera = StillRunning c'"
    and t: "window_titles (trace c') = [''Depth Capture'', ''Depth Capture'']" by blast
  from live_render_never_captures [of live_camera sample_platform
      "[frame_input 32, frame_input 32]"] r t
  show ?thesis
    by (simp add: live_camera_fields frame_input_fields state_of_def)
qed

text \<open>The loop after one pass of the sample input, with live render off and on.\<close>

lemma sample_first_pass:
  "\<exists>c0. while_loop sample_platform [frame_input 0] (start new_camera) = (ScriptEnded, c0)
     \<and> \<not> live_render c0 \<and> priv_scale c0 = Finite 1 \<and> is_running c0 \<and> next_addr c0 = 2
     \<and> trace c0 = [Print ''[CPU] Running depth scan...'',
                   Imshow ''Standard Camera''
                     \<lparr>height = 480, width = 640, channels = 3,
                      pixels = sample_pixels (mark_origin black_frame (10, 30) (10, 255, 100))
                                 480 640\<rparr>]"
  using sample_pass [of "start new_camera" 0]
  by (simp add: start_fields new_camera_fields upper_cpu)

lemma sample_first_live_pass:
  "\<exists>c0. while_loop sample_platform [frame_input 0] (start live_camera) = (ScriptEnded, c0)
     \<and> live_render c0 \<and> is_running c0
     \<and> window_titles (trace c0) = [''Depth Capture'']"
proof -
  from sample_live_pass [of "start live_camera" 0] obtain c1 where
    "loop_body sample_platform (frame_input 0) (start live_camera) = (Inr Continue, c1)"
    "same_config (start live_camera) c1"
    "window_titles (trace c1) = [''Depth Capture'']"
    by (auto simp: start_fields live_camera_fields window_titles_append)
  then show ?thesis
    by (auto simp: start_fields live_camera_fields same_config_def)
qed



text \<open>C7 in the second pass of a live-render run, with two equal clock readings.\<close>

theorem zero_elapsed_time_witness:
  "\<exists>c0. while_loop sample_platform [frame_input 0] (start live_camera) = (ScriptEnded, c0)
     \<and> read_result ((frame_input 0)\<lparr>t_end := Finite 2\<rparr>) = Inr (True, Some black_frame)
     \<and> float_sub (t_end ((frame_input 0)\<lparr>t_end := Finite 2\<rparr>))
         (t_start ((frame_input 0)\<lparr>t_end := Finite 2\<rparr>)) = Finite 0
     \<and> live_render live_camera
     \<and> (\<exists>depth. colormap_fn sample_platform (Some black_frame) = Inr depth)
     \<and> fps_value ((frame_input 0)\<lparr>t_end := Finite 2\<rparr>) = Inl ZeroDivisionError
     \<and> (\<exists>c1. while_loop sample_platform
               ([frame_input 0] @ (frame_input 0)\<lparr>t_end := Finite 2\<rparr> # [frame_input 0])
               (start live_camera) = (LoopRaised ZeroDivisionError, c1))
     \<and> (\<exists>c'. run sample_platform
               ([frame_input 0] @ (frame_input 0)\<lparr>t_end := Finite 2\<rparr> # [frame_input 0])
               live_camera = Returned c'
           \<and> trace c' = trace c0 @
               [Print ''Error during camera streaming: float division by zero'',
                CameraRelease, DestroyAllWindows, Print ''Scanner closed!''])"
proof -
  from sample_first_live_pass obtain c0 where
    w: "while_loop sample_platform [frame_input 0] (start live_camera) = (ScriptEnded, c0)"
    by blast
  have h1: "read_result ((frame_input 0)\<lparr>t_end := Finite 2\<rparr>) = Inr (True, Some black_frame)"
    by (simp add: frame_input_fields)
  have h2: "float_sub (t_end ((frame_input 0)\<lparr>t_end := Finite 2\<rparr>))
         (t_start ((frame_input 0)\<lparr>t_end := Finite 2\<rparr>)) = Finite 0"
    by (simp add: frame_input_fields fl_zero)
  have cm: "\<exists>depth. colormap_fn sample_platform (Some black_frame) = Inr depth"
    by (simp add: sample_platform_fields sample_colormap_def)
  then have h3: "live_render live_camera
      \<longrightarrow> (\<exists>depth. colormap_fn sample_platform (Some black_frame) = Inr depth)" by simp
  have lv: "live_render live_camera" by (simp add: live_camera_fields)
  note th = zero_elapsed_time [OF w h1 h2 h3, of "[frame_input 0]"]
  from th have a: "fps_value ((frame_input 0)\<lparr>t_end := Finite 2\<rparr>) = Inl ZeroDivisionError"
    by blast
  from th have b: "\<exists>c1. while_loop sample_platform
               ([frame_input 0] @ (frame_input 0)\<lparr>t_end := Finite 2\<rparr> # [frame_input 0])
               (start live_camera) = (LoopRaised ZeroDivisionError, c1)"
    by blast
  from th sample_platform_fields(4,5) have c: "\<exists>c'. run sample_platform
               ([frame_input 0] @ (frame_input 0)\<lparr>t_end := Finite 2\<rparr> # [frame_input 0])
               live_camera = Returned c'
           \<and> trace c' = trace c0 @
               [Print ''Error during camera streaming: float division by zero'',
                CameraRelease, DestroyAllWindows, Print ''Scanner closed!'']"
    by blast
  from w h1 h2 lv cm a b c show ?thesis by blast
qed

text \<open>
  C8.  The mutator cannot be invoked as the claim has it.  In a run that has shown one
  frame at scale 1.0, the call \<open>set_scale(0.5)\<close> raises \<open>TypeError\<close> (reading the
  property \<open>set_scale\<close> gives the current float, which is then called), and the
  assignment \<open>scale = 0.5\<close> raises \<open>AttributeError\<close>; the stored scale is still
  1.0, and the next frame is shown at 480 by 640, not at 240 by 320.
\<close>

theorem set_scale_call_raises:
  "\<exists>c1. while_loop sample_platform [frame_input 0] (start new_camera) = (ScriptEnded, c1)
     \<and> call_attr c1 ''set_scale'' [Finite (1 / 2)]
         = Some (Inl (TypeError ''float object is not callable''))
     \<and> setattr c1 ''scale'' (Finite (1 / 2))
         = Some (Inl (AttributeError ''property has no setter''))
     \<and> getattr c1 ''scale'' = Some (Inr (PyFloat (Finite 1)))
     \<and> scale c1 = Finite 1
     \<and> round_mul 480 (Finite (1 / 2)) = Inr 240 \<and> round_mul 640 (Finite (1 / 2)) = Inr 320
     \<and> window_sizes (trace (snd (while_loop sample_platform [frame_input 0] c1)))
         = [(480, 640), (480, 640)]"
proof -
  from sample_first_pass obtain c1 where
    w: "while_loop sample_platform [frame_input 0] (start new_camera) = (ScriptEnded, c1)"
    and c1: "\<not> live_render c1" "priv_scale c1 = Finite 1" "is_running c1"
    and t1: "trace c1 = [Print ''[CPU] Running depth scan...'',
                   Imshow ''Standard Camera''
                     \<lparr>height = 480, width = 640, channels = 3,
                      pixels = sample_pixels (mark_origin black_frame (10, 30) (10, 255, 100))
                                 480 640\<rparr>]"
    by blast
  have props: "call_attr c1 ''set_scale'' [Finite (1 / 2)]
         = Some (Inl (TypeError ''float object is not callable''))"
    "setattr c1 ''scale'' (Finite (1 / 2))
         = Some (Inl (AttributeError ''property has no setter''))"
    "getattr c1 ''scale'' = Some (Inr (PyFloat (Finite 1)))" "scale c1 = Finite 1"
    using c1(2)
    by (simp_all add: getattr_def setattr_def call_attr_def class_properties_eq
        property_get_def property_set_def py_call_def scale_def)
  have "window_sizes (trace (snd (while_loop sample_platform [frame_input 0] c1)))
         = [(480, 640), (480, 640)]"
    using sample_pass [OF c1(1,2), of 0] c1(3) t1 by simp
  with w props round_mul_half show ?thesis by blast
qed

lemma strftime_noon: "strftime_time (noon\<lparr>microsecond := m\<rparr>) = ''12:00:00''"
  by (simp add: strftime_time_def noon_def two_digits_eq)

lemma strftime_date_noon: "strftime_date noon = ''17 May 2024''"
proof -
  have "str_nat 2024 = ''2024''" by code_simp
  then show ?thesis by (simp add: strftime_date_def noon_def two_digits_eq month_name_def)
qed

lemma sample_env_fields:
  "now_date sample_env = noon" "now_time sample_env = noon"
  "capture_show_fault sample_env = None"
  by (simp_all add: sample_env_def)

text \<open>C9 on one invocation at noon, and a second clock reading in the same second.\<close>

theorem capture_window_witness:
  "colormap_fn sample_platform (deref loaded_camera (Ref 0))
     = Inr (black_frame\<lparr>pixels := map (\<lambda>v. 255 - v) (pixels black_frame)\<rparr>)
   \<and> capture_show_fault sample_env = None
   \<and> hour (now_time sample_env) < 24 \<and> minute (now_time sample_env) < 60
   \<and> second (now_time sample_env) < 60
   \<and> (\<exists>c'. capture sample_platform sample_env (Ref 0) loaded_camera = (Inr (), c')
         \<and> is_running c' = is_running loaded_camera
         \<and> trace c' =
             [CaptureCall (Some black_frame),
              Print ''[17 May 2024 | 12:00:00] Frame captured!'',
              Imshow ''Depth Scan - 12:00:00''
                (black_frame\<lparr>pixels := map (\<lambda>v. 255 - v) (pixels black_frame)\<rparr>)])
   \<and> ''Depth Scan - '' @ strftime_time (now_time sample_env)
       = ''Depth Scan - '' @ strftime_time (now_time (sample_env\<lparr>now_time := noon\<lparr>microsecond := 600000\<rparr>\<rparr>))"
proof -
  have h1: "colormap_fn sample_platform (deref loaded_camera (Ref 0))
     = Inr (black_frame\<lparr>pixels := map (\<lambda>v. 255 - v) (pixels black_frame)\<rparr>)"
    by (simp add: loaded_camera_facts sample_platform_fields sample_colormap_def)
  have h2: "capture_show_fault sample_env = None" by (simp add: sample_env_fields)
  have h3: "hour (now_time sample_env) < 24 \<and> minute (now_time sample_env) < 60
      \<and> second (now_time sample_env) < 60" by (simp add: sample_env_fields noon_def)
  have h4: "hour (now_time (sample_env\<lparr>now_time := noon\<lparr>microsecond := 600000\<rparr>\<rparr>)) < 24
      \<and> minute (now_time (sample_env\<lparr>now_time := noon\<lparr>microsecond := 600000\<rparr>\<rparr>)) < 60
      \<and> second (now_time (sample_env\<lparr>now_time := noon\<lparr>microsecond := 600000\<rparr>\<rparr>)) < 60"
    by (simp add: noon_def)
  have tr: "trace loaded_camera = []" by (simp add: loaded_camera_eq new_camera_def)
  have n: "strftime_time noon = ''12:00:00''"
    using strftime_noon [of "microsecond noon"] by simp
  from capture_window [OF h1 h2 h3 h4] h1 h2 h3 show ?thesis
    by (simp add: sample_env_fields loaded_camera_facts tr n strftime_noon strftime_date_noon)
qed

text \<open>
  C9 as stated fails: two invocations of \<open>capture\<close> at different instants of the
  same second show their results under the same title.
\<close>

theorem capture_titles_collide:
  "now_time sample_env \<noteq> now_time (sample_env\<lparr>now_time := noon\<lparr>microsecond := 600000\<rparr>\<rparr>)
   \<and> window_titles (trace (snd (capture sample_platform
         (sample_env\<lparr>now_time := noon\<lparr>microsecond := 600000\<rparr>\<rparr>) (Ref 0)
         (snd (capture sample_platform sample_env (Ref 0) loaded_camera)))))
       = [''Depth Scan - 12:00:00'', ''Depth Scan - 12:00:00'']"
proof -
  let ?depth = "black_frame\<lparr>pixels := map (\<lambda>v. 255 - v) (pixels black_frame)\<rparr>"
  let ?later = "sample_env\<lparr>now_time := noon\<lparr>microsecond := 600000\<rparr>\<rparr>"
  have n: "strftime_time noon = ''12:00:00''"
    using strftime_noon [of "microsecond noon"] by simp
  have d: "now_time sample_env \<noteq> now_time ?later"
    by (simp add: sample_env_fields noon_def)
  have h1: "colormap_fn sample_platform (deref loaded_camera (Ref 0)) = Inr ?depth"
    by (simp add: loaded_camera_facts sample_platform_fields sample_colormap_def)
  from capture_effect [OF h1 sample_env_fields(3)] obtain c1 where
    c1: "capture sample_platform sample_env (Ref 0) loaded_camera = (Inr (), c1)"
    and t1: "trace c1 = trace loaded_camera @
               [CaptureCall (deref loaded_camera (Ref 0)),
                Print (''['' @ strftime_date (now_date sample_env) @ '' | ''
                       @ strftime_time (now_time sample_env) @ ''] Frame captured!''),
                Imshow (''Depth Scan - '' @ strftime_time (now_time sample_env)) ?depth]"
    by blast
  have step: "\<exists>c'. capture sample_platform ?later (Ref 0) c1 = (Inr (), c')
      \<and> trace c' = trace c1 @
               [CaptureCall (deref c1 (Ref 0)),
                Print (''['' @ strftime_date (now_date ?later) @ '' | ''
                       @ strftime_time (now_time ?later) @ ''] Frame captured!''),
                Imshow (''Depth Scan - '' @ strftime_time (now_time ?later))
                  (case colormap_fn sample_platform (deref c1 (Ref 0)) of Inr x \<Rightarrow> x)]"
  proof -
    have "\<exists>x. colormap_fn sample_platform (deref c1 (Ref 0)) = Inr x"
      using c1 h1
      by (auto simp: capture_def then_do_def lift_def est_colormap_def alloc_def
          cv_imshow_def emit_def deref_def loaded_camera_eq new_camera_def
          sample_platform_fields sample_colormap_def split: option.splits)
    then obtain x where x: "colormap_fn sample_platform (deref c1 (Ref 0)) = Inr x" by blast
    have f: "capture_show_fault ?later = None" by (simp add: sample_env_fields)
    from capture_effect [OF x f] x show ?thesis by auto
  qed
  then obtain c2 where c2: "capture sample_platform ?later (Ref 0) c1 = (Inr (), c2)"
    and t2: "window_titles (trace c2) = window_titles (trace c1)
               @ [''Depth Scan - '' @ strftime_time (now_time ?later)]"
    by (auto simp: window_titles_append)
  have tr: "trace loaded_camera = []" by (simp add: loaded_camera_eq new_camera_def)
  from c1 c2 t1 t2 d show ?thesis
    by (simp add: tr n sample_env_fields strftime_noon)
qed

text \<open>
  C1.  With live render off and the spacebar polled, \<open>capture\<close> is entered once and
  the loop goes on with the state still running; but the array it is given is the one
  \<open>cv2.putText\<close> has drawn the FPS text into (\<open>display_frame\<close> and \<open>frame\<close> are
  one array when live render is off), not the frame as the camera returned it.
\<close>

theorem capture_receives_annotated_frame:
  "read_result (frame_input 32) = Inr (True, Some black_frame)
   \<and> key_result (frame_input 32) = Inr 32
   \<and> capture_args (trace (state_of (run sample_platform [frame_input 32] new_camera)))
       = [Some (mark_origin black_frame (10, 30) (10, 255, 100))]
   \<and> mark_origin black_frame (10, 30) (10, 255, 100) \<noteq> black_frame
   \<and> is_running (state_of (run sample_platform [frame_input 32] new_camera))"

proof -
  let ?ann = "mark_origin black_frame (10, 30) (10, 255, 100)"
  let ?c = "start new_camera"
  have "\<exists>c'. loop_body sample_platform (frame_input 32) ?c = (Inr Continue, c')
          \<and> same_config ?c c'
          \<and> capture_args (trace c') = [Some ?ann]"
  proof -
    have "\<exists>c'. loop_body sample_platform (frame_input 32) ?c = (Inr Continue, c')
          \<and> same_config ?c c'
          \<and> trace c' = trace ?c @
               [Imshow ''Standard Camera''
                  \<lparr>height = 480, width = 640, channels = channels ?ann,
                   pixels = sample_pixels ?ann 480 640\<rparr>,
                CaptureCall (Some ?ann),
                Print (''['' @ strftime_date (now_date (cap_env (frame_input 32))) @ '' | ''
                       @ strftime_time (now_time (cap_env (frame_input 32)))
                       @ ''] Frame captured!''),
                Imshow (''Depth Scan - '' @ strftime_time (now_time (cap_env (frame_input 32))))
                  (?ann\<lparr>pixels := map (\<lambda>v. 255 - v) (pixels ?ann)\<rparr>)]"
      by (rule capture_pass [where ret = True and raw = black_frame and fps = 32])
        (simp_all add: start_fields new_camera_fields frame_input_fields fps_value_sample
          sample_platform_fields sample_putText_def sample_colormap_def sample_inter_area_small
          mark_origin_shape black_frame_fields round_mul_sample int_max_def sample_env_fields)
    then show ?thesis
      by (auto simp: capture_args_append start_fields new_camera_fields)
  qed
  then obtain c' where lb: "loop_body sample_platform (frame_input 32) ?c = (Inr Continue, c')"
    and sc: "same_config ?c c'" and ca: "capture_args (trace c') = [Some ?ann]" by blast
  from sc have run': "is_running c'" by (simp add: same_config_def start_fields)
  with lb have "while_loop sample_platform [frame_input 32] ?c = (ScriptEnded, c')"
    by (simp add: start_fields)
  then have "run sample_platform [frame_input 32] new_camera = StillRunning c'"
    by (simp add: run_def)
  with ca run' show ?thesis
    by (simp add: state_of_def frame_input_fields marked_differs)
qed

text \<open>
  C3.  \<open>run\<close> sets the state to running when it starts and to stopped on the quit
  key; when an exception ends the loop (here a failed read, and a read that raises), the
  \<open>except\<close> clause only logs it: \<open>run\<close> returns with the teardown done and the
  state still running.
\<close>

theorem run_state_after_exception:
  "map_option is_running (final (run sample_platform
      [(frame_input 0)\<lparr>read_result := Inr (False, None)\<rparr>] new_camera)) = Some True
   \<and> map_option is_running (final (run sample_platform
      [(frame_input 0)\<lparr>read_result := Inl (PlatformError ''read failed'')\<rparr>] new_camera))
       = Some True
   \<and> map_option (\<lambda>c. last (trace c)) (final (run sample_platform
      [(frame_input 0)\<lparr>read_result := Inr (False, None)\<rparr>] new_camera))
       = Some (Print ''Scanner closed!'')"

proof -
  from no_frame_run [of 0] failed_read_run [of 0] show ?thesis
    by (auto simp: final_def)
qed

end
